theory Spec2Isabelle
  imports Main
begin

section \<open>Rows, schema objects and query conditions\<close>

text \<open>
  A row returned by the database is a plain JavaScript object. It is modelled as the list
  of its own properties, in order; reading a property that is absent gives \<open>Undefined\<close>.
\<close>

datatype jsval = Undefined | Null | Str string | Num int | Bool bool

type_synonym row = "(string \<times> jsval) list"

definition get_prop :: "row \<Rightarrow> string \<Rightarrow> jsval" where
  "get_prop item k = (case map_of item k of None \<Rightarrow> Undefined | Some v \<Rightarrow> v)"

text \<open>
  The schema registry \<open>EXPORT_TABLES\<close> (module \<open>@/database/schemas\<close>) is a parameter
  of the model: a partial map from table names to table objects, a table object being a
  partial map from property names to columns.
\<close>

datatype column = Column string string

type_synonym tableObj = "string \<rightharpoonup> column"

type_synonym schemas = "string \<rightharpoonup> tableObj"

text \<open>
  The conditions built by \<open>eq\<close>, \<open>inArray\<close> and \<open>and\<close> of the query builder are kept
  symbolic. The column argument is \<open>None\<close> when the table object has no such property
  (the JavaScript value \<open>undefined\<close>).
\<close>

datatype cond =
    Eq "column option" string
  | InArray "column option" "jsval list"
  | And "cond list"

text \<open>
  \<open>this.db.query[table].findMany({ where })\<close>: the database is a parameter, a function
  from the table name and the condition to either the rows or the error it raises.
\<close>

type_synonym database = "string \<Rightarrow> cond \<Rightarrow> string + row list"

subsection \<open>Configuration\<close>

record TableConfig =
  table :: string

record BaseTableConfig = TableConfig +
  userField :: "string option"

record Relation =
  field :: "string option"
  sourceField :: "string option"
  sourceTable :: string

record RelationTableConfig = TableConfig +
  relations :: "Relation list"

record ExportConfig =
  baseTables :: "BaseTableConfig list"
  relationTables :: "RelationTableConfig list"

definition base :: "string \<Rightarrow> string option \<Rightarrow> BaseTableConfig" where
  "base t uf = \<lparr>table = t, userField = uf\<rparr>"

definition rel :: "string option \<Rightarrow> string option \<Rightarrow> string \<Rightarrow> Relation" where
  "rel f sf st = \<lparr>field = f, sourceField = sf, sourceTable = st\<rparr>"

definition relTable :: "string \<Rightarrow> Relation list \<Rightarrow> RelationTableConfig" where
  "relTable t rs = \<lparr>table = t, relations = rs\<rparr>"

definition DATA_EXPORT_CONFIG :: ExportConfig where
  "DATA_EXPORT_CONFIG = \<lparr>
     baseTables = [
       base ''users'' (Some ''id''),
       base ''userSettings'' (Some ''id''),
       base ''userInstalledPlugins'' None,
       base ''agents'' None,
       base ''sessionGroups'' None,
       base ''sessions'' None,
       base ''topics'' None,
       base ''threads'' None,
       base ''messages'' None,
       base ''files'' None,
       base ''knowledgeBases'' None,
       base ''agentsKnowledgeBases'' None,
       base ''aiProviders'' None,
       base ''aiModels'' None,
       base ''asyncTasks'' None,
       base ''chunks'' None,
       base ''embeddings'' None],
     relationTables = [
       relTable ''agentsToSessions''
         [rel (Some ''agentId'') (Some ''id'') ''agents'',
          rel None (Some ''sessionId'') ''sessions''],
       relTable ''agentsFiles''
         [rel None (Some ''agentId'') ''agents'',
          rel None (Some ''fileId'') ''files''],
       relTable ''filesToSessions''
         [rel (Some ''sessionId'') None ''sessions''],
       relTable ''messagePlugins''
         [rel (Some ''id'') None ''messages''],
       relTable ''messageTTS''
         [rel (Some ''id'') None ''messages''],
       relTable ''messageTranslates''
         [rel (Some ''id'') None ''messages''],
       relTable ''messagesFiles''
         [rel (Some ''messageId'') None ''messages'',
          rel (Some ''fileId'') None ''files''],
       relTable ''messageQueries''
         [rel (Some ''messageId'') None ''messages''],
       relTable ''messageQueryChunks''
         [rel (Some ''messageId'') None ''messages'',
          rel (Some ''chunkId'') None ''chunks''],
       relTable ''messageChunks''
         [rel (Some ''messageId'') None ''messages'',
          rel (Some ''chunkId'') None ''chunks''],
       relTable ''knowledgeBaseFiles''
         [rel (Some ''knowledgeBaseId'') None ''knowledgeBases'',
          rel (Some ''fileId'') None ''files'']]\<rparr>"

definition all_tables :: "ExportConfig \<Rightarrow> string list" where
  "all_tables cfg = map table (baseTables cfg) @ map table (relationTables cfg)"

subsection \<open>Effects and errors\<close>

text \<open>
  What a run does besides computing its value is recorded as a list of events: every
  query sent to the database and every line written to the console.
\<close>

datatype logmsg =
    QueryingBaseTables
  | QueryingRelationTables
  | BaseResults "(string \<times> row list) list"
  | SourceHasNoData string string
  | SkippingTable string
  | SuccessfullyExported string nat

datatype event =
    FindMany string cond
  | ConsoleLog logmsg
  | ConsoleError string string

datatype error =
    TableNotFound string
  | ConcurrencyTypeError

text \<open>
  A call of an async function is described by three things: the events it causes when it
  is called, up to the point where it waits for the database; the events it causes when
  it is resumed; and its outcome, \<open>Inl\<close> for a rejection.
\<close>

type_synonym 'a task = "event list \<times> event list \<times> (error + 'a)"

definition on_call :: "'a task \<Rightarrow> event list" where
  "on_call k = fst k"

definition on_resume :: "'a task \<Rightarrow> event list" where
  "on_resume k = fst (snd k)"

definition outcome :: "'a task \<Rightarrow> error + 'a" where
  "outcome k = snd (snd k)"

section \<open>The repository class \<open>DataExporterRepos\<close>\<close>

text \<open>\<open>a || b\<close> on an optional string: \<open>undefined\<close> and the empty string are falsy.\<close>

definition or_default :: "string option \<Rightarrow> string \<Rightarrow> string" where
  "or_default a b = (case a of None \<Rightarrow> b | Some s \<Rightarrow> if s = [] then b else s)"

text \<open>The property key of \<open>obj[k]\<close>: an \<open>undefined\<close> key reads the property \<open>undefined\<close>.\<close>

definition prop_key :: "string option \<Rightarrow> string" where
  "prop_key k = (case k of None \<Rightarrow> ''undefined'' | Some s \<Rightarrow> s)"

text \<open>Every JavaScript array is truthy, the empty one too.\<close>

definition truthy_array :: "'a list \<Rightarrow> bool" where
  "truthy_array xs = True"

text \<open>\<open>existingData[name] || []\<close>\<close>

definition rows_or_empty :: "(string \<rightharpoonup> row list) \<Rightarrow> string \<Rightarrow> row list" where
  "rows_or_empty existingData name = (case existingData name of None \<Rightarrow> [] | Some d \<Rightarrow> d)"

definition removeUserId :: "row list \<Rightarrow> row list" where
  "removeUserId data = map (\<lambda>item. filter (\<lambda>(k, v). k \<noteq> ''userId'') item) data"

text \<open>
  The loop of \<open>queryTable\<close> over \<open>config.relations\<close>. It returns \<open>None\<close> when the
  loop leaves the function early with \<open>[]\<close>, and the collected conditions otherwise.
\<close>

fun relation_conditions ::
  "tableObj \<Rightarrow> string \<Rightarrow> (string \<rightharpoonup> row list) \<Rightarrow> Relation list \<Rightarrow> cond list
     \<Rightarrow> event list \<times> cond list option" where
  "relation_conditions tableObj t existingData [] conditions = ([], Some conditions)"
| "relation_conditions tableObj t existingData (relation # rest) conditions =
     (let sourceData = rows_or_empty existingData (sourceTable relation)
      in if length sourceData = 0
         then ([ConsoleLog (SourceHasNoData (sourceTable relation) t)], None)
         else
           let sourceIds =
                 map (\<lambda>item. get_prop item (or_default (sourceField relation) ''id'')) sourceData
           in relation_conditions tableObj t existingData rest
                (conditions @ [InArray (tableObj (prop_key (field relation))) sourceIds]))"

definition combine_conditions :: "cond list \<Rightarrow> cond" where
  "combine_conditions conditions =
     (if length conditions = 1 then hd conditions else And conditions)"

definition queryTable ::
  "schemas \<Rightarrow> database \<Rightarrow> string \<Rightarrow> RelationTableConfig \<Rightarrow> (string \<rightharpoonup> row list)
     \<Rightarrow> row list task" where
  "queryTable EXPORT_TABLES db userId config existingData =
     (case EXPORT_TABLES (table config) of
        None \<Rightarrow> ([], [], Inl (TableNotFound (table config)))
      | Some tableObj \<Rightarrow>
          (case relation_conditions tableObj (table config) existingData
                  (relations config) [] of
             (ev, None) \<Rightarrow> (ev, [], Inr [])
           | (ev, Some conditions0) \<Rightarrow>
               let conditions =
                     (if tableObj ''userId'' \<noteq> None \<and> table config \<noteq> ''users''
                         \<and> \<not> truthy_array (relations config)
                      then conditions0 @ [Eq (tableObj ''userId'') userId]
                      else conditions0);
                   where = combine_conditions conditions
               in (case db (table config) where of
                     Inl err \<Rightarrow>
                       (ev @ [FindMany (table config) where],
                        [ConsoleError (table config) err],
                        Inr [])
                   | Inr result \<Rightarrow>
                       (ev @ [FindMany (table config) where],
                        [ConsoleLog (SuccessfullyExported (table config) (length result))],
                        Inr (if truthy_array (relations config) then result
                             else removeUserId result)))))"

definition queryBaseTables ::
  "schemas \<Rightarrow> database \<Rightarrow> string \<Rightarrow> BaseTableConfig \<Rightarrow> row list task" where
  "queryBaseTables EXPORT_TABLES db userId config =
     (case EXPORT_TABLES (table config) of
        None \<Rightarrow> ([], [], Inl (TableNotFound (table config)))
      | Some tableObj \<Rightarrow>
          let uf = or_default (userField config) ''userId'';
              where = Eq (tableObj uf) userId
          in (case db (table config) where of
                Inl err \<Rightarrow>
                  ([FindMany (table config) where],
                   [ConsoleError (table config) err],
                   Inr [])
              | Inr result \<Rightarrow>
                  ([FindMany (table config) where],
                   [ConsoleLog (SuccessfullyExported (table config) (length result))],
                   Inr (removeUserId result))))"

subsection \<open>The bounded parallel map\<close>

text \<open>
  Modelled from the spec: \<open>pMap\<close> (package \<open>p-map\<close>) is not among the sources. It calls
  the mapper on the items in input order, with at most \<open>concurrency\<close> calls in flight;
  calls complete in any order; it resolves with the mapper's values in input order once
  every call has resolved, and rejects as soon as one call rejects. A \<open>concurrency\<close>
  below 1 is rejected with a type error.

  The order in which the calls in flight complete is given by the parameter \<open>pick\<close>,
  which picks the next call to complete among those in flight (the oldest one when it
  picks none of them). Nothing is assumed about \<open>pick\<close>.
\<close>

definition next_settled :: "('a list \<Rightarrow> 'a) \<Rightarrow> 'a list \<Rightarrow> 'a" where
  "next_settled pick running =
     (if pick running \<in> set running then pick running else hd running)"

function pMap_loop ::
  "nat \<Rightarrow> ('a list \<Rightarrow> 'a) \<Rightarrow> ('a \<Rightarrow> 'b task) \<Rightarrow> 'a list \<Rightarrow> 'a list
     \<Rightarrow> event list \<times> error option" where
  "pMap_loop c pick mapper pending running =
     (if pending \<noteq> [] \<and> length running < c then
        (case pMap_loop c pick mapper (tl pending) (running @ [hd pending]) of
           (ev, r) \<Rightarrow> (on_call (mapper (hd pending)) @ ev, r))
      else if running = [] then ([], None)
      else
        let x = next_settled pick running
        in (case outcome (mapper x) of
              Inl e \<Rightarrow> (on_resume (mapper x), Some e)
            | Inr v \<Rightarrow>
                (case pMap_loop c pick mapper pending (remove1 x running) of
                   (ev, r) \<Rightarrow> (on_resume (mapper x) @ ev, r))))"
  by pat_completeness auto

termination pMap_loop
proof (relation "measure (\<lambda>(c, pick, mapper, pending, running).
                    2 * length pending + length running)")
  show "wf (measure (\<lambda>(c, pick, mapper, pending, running).
                    2 * length pending + length (running :: 'a list)))"
    by simp
next
  fix c :: nat and pick :: "'a list \<Rightarrow> 'a" and mapper :: "'a \<Rightarrow> 'b task"
    and pending running :: "'a list"
  assume "pending \<noteq> [] \<and> length running < c"
  then show "((c, pick, mapper, tl pending, running @ [hd pending]),
              (c, pick, mapper, pending, running))
             \<in> measure (\<lambda>(c, pick, mapper, pending, running).
                    2 * length pending + length running)"
    by (cases pending) simp_all
next
  fix c :: nat and pick :: "'a list \<Rightarrow> 'a" and mapper :: "'a \<Rightarrow> 'b task"
    and pending running :: "'a list" and x :: 'a and v :: 'b
  assume "running \<noteq> []" and "x = next_settled pick running"
  then have "x \<in> set running"
    by (simp add: next_settled_def)
  then have "length (remove1 x running) < length running"
    using length_pos_if_in_set [of x running] by (simp add: length_remove1)
  then show "((c, pick, mapper, pending, remove1 x running),
              (c, pick, mapper, pending, running))
             \<in> measure (\<lambda>(c, pick, mapper, pending, running).
                    2 * length pending + length running)"
    by simp
qed

declare pMap_loop.simps [simp del]

fun resolved_values :: "(error + 'b) list \<Rightarrow> 'b list" where
  "resolved_values [] = []"
| "resolved_values (Inr v # rest) = v # resolved_values rest"
| "resolved_values (Inl e # rest) = resolved_values rest"

definition pMap ::
  "'a list \<Rightarrow> ('a \<Rightarrow> 'b task) \<Rightarrow> int \<Rightarrow> ('a list \<Rightarrow> 'a) \<Rightarrow> event list \<times> (error + 'b list)" where
  "pMap items mapper concurrency pick =
     (if concurrency < 1 then ([], Inl ConcurrencyTypeError)
      else (case pMap_loop (nat concurrency) pick mapper items [] of
              (ev, Some e) \<Rightarrow> (ev, Inl e)
            | (ev, None) \<Rightarrow> (ev, Inr (resolved_values (map (\<lambda>x. outcome (mapper x)) items)))))"

subsection \<open>\<open>export\<close>\<close>

text \<open>\<open>results.forEach(({ table, data }) => { result[table] = data })\<close>\<close>

definition set_results ::
  "(string \<times> row list) list \<Rightarrow> (string \<rightharpoonup> row list) \<Rightarrow> (string \<rightharpoonup> row list)" where
  "set_results results result = fold (\<lambda>(t, d) m. m(t \<mapsto> d)) results result"

definition with_table :: "string \<Rightarrow> row list task \<Rightarrow> (string \<times> row list) task" where
  "with_table t k =
     (on_call k, on_resume k,
      (case outcome k of Inl e \<Rightarrow> Inl e | Inr d \<Rightarrow> Inr (t, d)))"

definition base_mapper ::
  "schemas \<Rightarrow> database \<Rightarrow> string \<Rightarrow> BaseTableConfig \<Rightarrow> (string \<times> row list) task" where
  "base_mapper EXPORT_TABLES db userId config =
     with_table (table config) (queryBaseTables EXPORT_TABLES db userId config)"

definition relation_mapper ::
  "schemas \<Rightarrow> database \<Rightarrow> string \<Rightarrow> (string \<rightharpoonup> row list) \<Rightarrow> RelationTableConfig
     \<Rightarrow> (string \<times> row list) task" where
  "relation_mapper EXPORT_TABLES db userId result config =
     (let allSourcesHaveData =
            list_all (\<lambda>relation. length (rows_or_empty result (sourceTable relation)) > 0)
              (relations config)
      in if \<not> allSourcesHaveData
         then ([ConsoleLog (SkippingTable (table config))], [], Inr (table config, []))
         else with_table (table config)
                (queryTable EXPORT_TABLES db userId config result))"

definition export ::
  "schemas \<Rightarrow> database \<Rightarrow> string \<Rightarrow> ExportConfig
     \<Rightarrow> (BaseTableConfig list \<Rightarrow> BaseTableConfig)
     \<Rightarrow> (RelationTableConfig list \<Rightarrow> RelationTableConfig)
     \<Rightarrow> int \<Rightarrow> event list \<times> (error + (string \<rightharpoonup> row list))" where
  "export EXPORT_TABLES db userId cfg pick_base pick_relation concurrency =
     (case pMap (baseTables cfg) (base_mapper EXPORT_TABLES db userId)
             concurrency pick_base of
        (ev1, Inl e) \<Rightarrow> (ConsoleLog QueryingBaseTables # ev1, Inl e)
      | (ev1, Inr baseResults) \<Rightarrow>
          let result = set_results baseResults Map.empty;
              before = ConsoleLog QueryingBaseTables # ev1 @
                       [ConsoleLog (BaseResults baseResults),
                        ConsoleLog QueryingRelationTables]
          in (case pMap (relationTables cfg)
                     (relation_mapper EXPORT_TABLES db userId result)
                     concurrency pick_relation of
                (ev2, Inl e) \<Rightarrow> (before @ ev2, Inl e)
              | (ev2, Inr relationResults) \<Rightarrow>
                  (before @ ev2, Inr (set_results relationResults result))))"

section \<open>The settings panel \<open>AdvancedActions\<close>\<close>

text \<open>
  The store actions (\<open>useSessionStore\<close>, \<open>useChatStore\<close>, \<open>useFileStore\<close>,
  \<open>useToolStore\<close>) are parameters: an action takes the application state and returns
  the state it leaves behind, together with the error it rejects with, if any.
\<close>

datatype clear_action =
    ClearSessions
  | RemoveAllPlugins
  | ClearTopics
  | RemoveAllFiles
  | ClearAllMessages
  | ClearSessionGroups

datatype ui_event = Called clear_action | MessageSuccess

type_synonym 'w store_action = "'w \<Rightarrow> string option \<times> 'w"

record 'w stores =
  clearSessions :: "'w store_action"
  clearSessionGroups :: "'w store_action"
  clearTopics :: "'w store_action"
  clearAllMessages :: "'w store_action"
  removeAllFiles :: "'w store_action"
  removeAllPlugins :: "'w store_action"

type_synonym 'w ui_state = "'w \<times> ui_event list"

text \<open>
  \<open>await action(); rest\<close>: the action is called; when it rejects, the rejection leaves
  the enclosing async function and \<open>rest\<close> does not run.
\<close>

definition await ::
  "clear_action \<Rightarrow> 'w store_action \<Rightarrow> ('w ui_state \<Rightarrow> string option \<times> 'w ui_state)
     \<Rightarrow> 'w ui_state \<Rightarrow> string option \<times> 'w ui_state" where
  "await name action rest s =
     (case action (fst s) of
        (Some err, w) \<Rightarrow> (Some err, (w, snd s @ [Called name]))
      | (None, w) \<Rightarrow> rest (w, snd s @ [Called name]))"

definition onOk :: "'w stores \<Rightarrow> 'w ui_state \<Rightarrow> string option \<times> 'w ui_state" where
  "onOk st =
     await ClearSessions (clearSessions st)
    (await RemoveAllPlugins (removeAllPlugins st)
    (await ClearTopics (clearTopics st)
    (await RemoveAllFiles (removeAllFiles st)
    (await ClearAllMessages (clearAllMessages st)
    (await ClearSessionGroups (clearSessionGroups st)
    (\<lambda>s. (None, (fst s, snd s @ [MessageSuccess]))))))))"

text \<open>\<open>modal.confirm({ onOk, ... })\<close>: \<open>onOk\<close> runs when the user confirms.\<close>

definition handleClear ::
  "'w stores \<Rightarrow> bool \<Rightarrow> 'w ui_state \<Rightarrow> string option \<times> 'w ui_state" where
  "handleClear st confirmed s = (if confirmed then onOk st s else (None, s))"

section \<open>Notions used to state the properties\<close>

text \<open>The documented order of the six clear operations.\<close>

definition documented_order :: "'w stores \<Rightarrow> (clear_action \<times> 'w store_action) list" where
  "documented_order st =
     [(ClearSessions, clearSessions st),
      (RemoveAllPlugins, removeAllPlugins st),
      (ClearTopics, clearTopics st),
      (RemoveAllFiles, removeAllFiles st),
      (ClearAllMessages, clearAllMessages st),
      (ClearSessionGroups, clearSessionGroups st)]"

text \<open>The application state after a list of actions has run, one after the other.\<close>

definition state_after :: "(clear_action \<times> 'w store_action) list \<Rightarrow> 'w \<Rightarrow> 'w" where
  "state_after steps w = fold (\<lambda>(name, action) w. snd (action w)) steps w"

text \<open>
  An ordered sequence of async calls with an all-or-nothing success message, in the
  words of the specification: the calls run one after the other, the first failure ends
  the sequence, and the message is shown once every call has succeeded.
\<close>

fun run_sequence ::
  "(clear_action \<times> 'w store_action) list \<Rightarrow> 'w ui_state \<Rightarrow> string option \<times> 'w ui_state" where
  "run_sequence [] s = (None, (fst s, snd s @ [MessageSuccess]))"
| "run_sequence ((name, action) # rest) s =
     (case action (fst s) of
        (Some err, w) \<Rightarrow> (Some err, (w, snd s @ [Called name]))
      | (None, w) \<Rightarrow> run_sequence rest (w, snd s @ [Called name]))"

text \<open>
  The membership condition of one declared relation, in the words of the specification:
  the relation table's local field must be one of the values of the source field
  (\<open>id\<close> by default) in the rows already exported for the source table.
\<close>

definition membership_condition ::
  "tableObj \<Rightarrow> (string \<rightharpoonup> row list) \<Rightarrow> Relation \<Rightarrow> cond" where
  "membership_condition tableObj exported relation =
     InArray (tableObj (prop_key (field relation)))
       (map (\<lambda>item. get_prop item (or_default (sourceField relation) ''id''))
          (rows_or_empty exported (sourceTable relation)))"

text \<open>The result mapping as it stands when the relation phase starts.\<close>

definition result_after_base_phase ::
  "schemas \<Rightarrow> database \<Rightarrow> string \<Rightarrow> ExportConfig \<Rightarrow> (string \<rightharpoonup> row list)" where
  "result_after_base_phase EXPORT_TABLES db userId cfg =
     set_results
       (resolved_values
          (map (\<lambda>config. outcome (base_mapper EXPORT_TABLES db userId config))
             (baseTables cfg)))
       Map.empty"

text \<open>The rows a mapper call hands back for its table (none when it rejects).\<close>

definition rows_of :: "(string \<times> row list) task \<Rightarrow> row list" where
  "rows_of k = (case outcome k of Inl e \<Rightarrow> [] | Inr (t, d) \<Rightarrow> d)"

text \<open>Every configured table has an entry in the schema registry.\<close>

definition registered :: "schemas \<Rightarrow> ExportConfig \<Rightarrow> bool" where
  "registered EXPORT_TABLES cfg = list_all (\<lambda>t. EXPORT_TABLES t \<noteq> None) (all_tables cfg)"

text \<open>The console line that ends the query of table \<open>t\<close>.\<close>

fun answered :: "string \<Rightarrow> event \<Rightarrow> bool" where
  "answered t (ConsoleLog (SuccessfullyExported t' n)) = (t' = t)"
| "answered t (ConsoleError t' err) = (t' = t)"
| "answered t e = False"

section \<open>A sample schema and database\<close>

text \<open>
  A schema registry holding every configured table, and a database in which the owner
  \<open>u1\<close> has one user row, two sessions, three messages and one chunk, no agents, a
  file table whose query fails, and one relation row linking a file to the first session.
\<close>

definition demo_columns :: "string \<Rightarrow> tableObj" where
  "demo_columns t =
     (\<lambda>c. if t \<in> set [''users'', ''userSettings'']
          then (if c = ''id'' then Some (Column t c) else None)
          else (if c \<in> set [''id'', ''userId'', ''agentId'', ''sessionId'', ''fileId'',
                             ''messageId'', ''chunkId'', ''knowledgeBaseId'']
                then Some (Column t c) else None))"

definition demo_schemas :: schemas where
  "demo_schemas =
     (\<lambda>t. if t \<in> set (all_tables DATA_EXPORT_CONFIG) then Some (demo_columns t) else None)"

definition demo_sessions :: "row list" where
  "demo_sessions =
     [[(''id'', Str ''s1''), (''userId'', Str ''u1''), (''title'', Str ''first'')],
      [(''id'', Str ''s2''), (''userId'', Str ''u1''), (''title'', Str ''second'')]]"

definition demo_messages :: "row list" where
  "demo_messages =
     [[(''id'', Str ''m1''), (''userId'', Str ''u1''), (''content'', Str ''hello'')],
      [(''id'', Str ''m2''), (''userId'', Str ''u1''), (''content'', Str ''world'')],
      [(''id'', Str ''m3''), (''content'', Str ''bye'')]]"

definition demo_db :: database where
  "demo_db t w =
     (if t = ''users'' then Inr [[(''id'', Str ''u1''), (''email'', Str ''a@b.c'')]]
      else if t = ''sessions'' then Inr demo_sessions
      else if t = ''messages'' then Inr demo_messages
      else if t = ''files'' then Inl ''connection lost''
      else if t = ''chunks'' then
        Inr [[(''id'', Str ''c1''), (''userId'', Str ''u1''), (''text'', Str ''lorem'')]]
      else if t = ''filesToSessions'' then
        (if w = InArray (Some (Column ''filesToSessions'' ''sessionId'')) [Str ''s1'', Str ''s2'']
         then Inr [[(''fileId'', Str ''f1''), (''sessionId'', Str ''s1''),
                    (''userId'', Str ''u1'')]]
         else Inr [])
      else if t = ''messagePlugins'' then Inl ''timeout''
      else Inr [])"


text \<open>
  Sample store actions on a state that lists the categories of data still present. Each
  action removes its category; \<open>removeAllTopics\<close> fails when \<open>topics_fail\<close> is set.
\<close>

definition demo_stores :: "bool \<Rightarrow> string list stores" where
  "demo_stores topics_fail =
     \<lparr>clearSessions = (\<lambda>w. (None, removeAll ''sessions'' w)),
      clearSessionGroups = (\<lambda>w. (None, removeAll ''sessionGroups'' w)),
      clearTopics = (\<lambda>w. if topics_fail then (Some ''request failed'', w)
                          else (None, removeAll ''topics'' w)),
      clearAllMessages = (\<lambda>w. (None, removeAll ''messages'' w)),
      removeAllFiles = (\<lambda>w. (None, removeAll ''files'' w)),
      removeAllPlugins = (\<lambda>w. (None, removeAll ''plugins'' w))\<rparr>"

definition demo_state :: "string list" where
  "demo_state = [''sessions'', ''plugins'', ''topics'', ''files'', ''messages'', ''sessionGroups'']"

section \<open>Properties\<close>

lemma map_of_filter_userId:
  "map_of (filter (\<lambda>(k, v). k \<noteq> ''userId'') item) k =
     (if k = ''userId'' then None else map_of item k)"
  by (induction item) auto

lemma pMap_loop_start:
  "pending \<noteq> [] \<Longrightarrow> length running < c \<Longrightarrow>
   pMap_loop c pick f pending running =
     (on_call (f (hd pending)) @ fst (pMap_loop c pick f (tl pending) (running @ [hd pending])),
      snd (pMap_loop c pick f (tl pending) (running @ [hd pending])))"
  by (subst pMap_loop.simps) (simp add: case_prod_beta)

lemma pMap_loop_done:
  assumes "\<not> (pending \<noteq> [] \<and> length running < c)" and "running = []"
  shows "pMap_loop c pick f pending running = ([], None)"
  using assms by (subst pMap_loop.simps) (simp only: if_not_P if_P if_False)

lemma pMap_loop_reject:
  "\<not> (pending \<noteq> [] \<and> length running < c) \<Longrightarrow> running \<noteq> [] \<Longrightarrow>
   outcome (f (next_settled pick running)) = Inl e \<Longrightarrow>
   pMap_loop c pick f pending running = (on_resume (f (next_settled pick running)), Some e)"
  by (subst pMap_loop.simps) (auto simp: Let_def)

lemma pMap_loop_resolve:
  "\<not> (pending \<noteq> [] \<and> length running < c) \<Longrightarrow> running \<noteq> [] \<Longrightarrow>
   outcome (f (next_settled pick running)) = Inr v \<Longrightarrow>
   pMap_loop c pick f pending running =
     (on_resume (f (next_settled pick running)) @
        fst (pMap_loop c pick f pending (remove1 (next_settled pick running) running)),
      snd (pMap_loop c pick f pending (remove1 (next_settled pick running) running)))"
  by (subst pMap_loop.simps) (auto simp: Let_def case_prod_beta)

lemma next_settled_in_running:
  "running \<noteq> [] \<Longrightarrow> next_settled pick running \<in> set running"
  by (simp add: next_settled_def)

lemma pMap_loop_events:
  "e \<in> set (fst (pMap_loop c pick f pending running)) \<Longrightarrow>
     (\<exists>x \<in> set pending. e \<in> set (on_call (f x))) \<or>
     (\<exists>x \<in> set pending \<union> set running. e \<in> set (on_resume (f x)))"
proof (induction c pick f pending running rule: pMap_loop.induct)
  case (1 c pick f pending running)
  show ?case
  proof (cases "pending \<noteq> [] \<and> length running < c")
    case True
    then obtain p ps where p: "pending = p # ps" by (cases pending) auto
    let ?rec = "pMap_loop c pick f ps (running @ [p])"
    have ev: "fst (pMap_loop c pick f pending running) = on_call (f p) @ fst ?rec"
      using True p by (simp add: pMap_loop_start)
    with "1.prems" have "e \<in> set (on_call (f p)) \<or> e \<in> set (fst ?rec)"
      by simp
    then show ?thesis
    proof
      assume "e \<in> set (on_call (f p))"
      with p show ?thesis by simp
    next
      assume "e \<in> set (fst ?rec)"
      then have "e \<in> set (fst (pMap_loop c pick f (tl pending) (running @ [hd pending])))"
        using p by simp
      from "1.IH"(1) [OF True this]
      have "(\<exists>x \<in> set ps. e \<in> set (on_call (f x))) \<or>
            (\<exists>x \<in> set ps \<union> set (running @ [p]). e \<in> set (on_resume (f x)))"
        using p by simp
      then show ?thesis using p by auto
    qed
  next
    case False
    show ?thesis
    proof (cases "running = []")
      case True
      from pMap_loop_done [OF False True, where pick = pick and f = f] "1.prems" show ?thesis by simp
    next
      case nonempty: False
      define x where "x = next_settled pick running"
      have xin: "x \<in> set running"
        using nonempty by (simp add: x_def next_settled_in_running)
      show ?thesis
      proof (cases "outcome (f x)")
        case (Inl err)
        from pMap_loop_reject [where f = f and pick = pick, OF False nonempty Inl [unfolded x_def]] "1.prems"
        have "e \<in> set (on_resume (f x))"
          by (simp add: x_def)
        with xin show ?thesis by blast
      next
        case (Inr v)
        let ?rec = "pMap_loop c pick f pending (remove1 x running)"
        from pMap_loop_resolve [where f = f and pick = pick, OF False nonempty Inr [unfolded x_def]] "1.prems"
        have "e \<in> set (on_resume (f x)) \<or> e \<in> set (fst ?rec)"
          by (simp add: x_def)
        then show ?thesis
        proof
          assume "e \<in> set (on_resume (f x))"
          with xin show ?thesis by blast
        next
          assume "e \<in> set (fst ?rec)"
          from "1.IH"(2) [OF False nonempty x_def Inr this]
          show ?thesis using set_remove1_subset [of x running] by blast
        qed
      qed
    qed
  qed
qed

lemma pMap_loop_rejected:
  "snd (pMap_loop c pick f pending running) = Some e \<Longrightarrow>
     \<exists>x \<in> set pending \<union> set running. outcome (f x) = Inl e"
proof (induction c pick f pending running rule: pMap_loop.induct)
  case (1 c pick f pending running)
  show ?case
  proof (cases "pending \<noteq> [] \<and> length running < c")
    case True
    then obtain p ps where p: "pending = p # ps" by (cases pending) auto
    let ?rec = "pMap_loop c pick f ps (running @ [p])"
    have "snd (pMap_loop c pick f pending running) = snd ?rec"
      using True p by (simp add: pMap_loop_start)
    with "1.prems" have "snd (pMap_loop c pick f (tl pending) (running @ [hd pending])) = Some e"
      using p by simp
    from "1.IH"(1) [OF True this]
    have "\<exists>x \<in> set ps \<union> set (running @ [p]). outcome (f x) = Inl e"
      using p by simp
    then show ?thesis using p by auto
  next
    case False
    show ?thesis
    proof (cases "running = []")
      case True
      from pMap_loop_done [OF False True, where pick = pick and f = f] "1.prems" show ?thesis by simp
    next
      case nonempty: False
      define x where "x = next_settled pick running"
      have xin: "x \<in> set running"
        using nonempty by (simp add: x_def next_settled_in_running)
      show ?thesis
      proof (cases "outcome (f x)")
        case (Inl err)
        from pMap_loop_reject [where f = f and pick = pick, OF False nonempty Inl [unfolded x_def]] "1.prems"
        have "err = e" by simp
        with Inl xin show ?thesis by blast
      next
        case (Inr v)
        let ?rec = "pMap_loop c pick f pending (remove1 x running)"
        from pMap_loop_resolve [where f = f and pick = pick, OF False nonempty Inr [unfolded x_def]] "1.prems"
        have "snd ?rec = Some e"
          by (simp add: x_def)
        from "1.IH"(2) [OF False nonempty x_def Inr this]
        show ?thesis using set_remove1_subset [of x running] by blast
      qed
    qed
  qed
qed

lemma pMap_loop_resolved:
  "snd (pMap_loop c pick f pending running) = None \<Longrightarrow> (pending \<noteq> [] \<longrightarrow> 0 < c) \<Longrightarrow>
     (\<forall>x \<in> set pending.
        (\<exists>v. outcome (f x) = Inr v) \<and>
        (\<exists>a b d. fst (pMap_loop c pick f pending running) =
                    a @ on_call (f x) @ b @ on_resume (f x) @ d)) \<and>
     (\<forall>x \<in> set running.
        (\<exists>v. outcome (f x) = Inr v) \<and>
        (\<exists>a d. fst (pMap_loop c pick f pending running) = a @ on_resume (f x) @ d))"
proof (induction c pick f pending running rule: pMap_loop.induct)
  case (1 c pick f pending running)
  let ?ev = "fst (pMap_loop c pick f pending running)"
  show ?case
  proof (cases "pending \<noteq> [] \<and> length running < c")
    case True
    then obtain p ps where p: "pending = p # ps" by (cases pending) auto
    let ?rec = "pMap_loop c pick f ps (running @ [p])"
    have ev: "?ev = on_call (f p) @ fst ?rec"
      and res: "snd (pMap_loop c pick f pending running) = snd ?rec"
      using True p by (simp_all add: pMap_loop_start)
    from res "1.prems" have none: "snd (pMap_loop c pick f (tl pending) (running @ [hd pending])) = None"
      using p by simp
    have pos: "tl pending \<noteq> [] \<longrightarrow> 0 < c" using True by auto
    note IH = "1.IH"(1) [OF True none pos, unfolded p list.sel]
    note IHp = IH [THEN conjunct1, THEN bspec] and IHr = IH [THEN conjunct2, THEN bspec]
    have pend: "(\<exists>v. outcome (f x) = Inr v) \<and>
        (\<exists>a b d. ?ev = a @ on_call (f x) @ b @ on_resume (f x) @ d)"
      if "x \<in> set pending" for x
    proof (cases "x = p")
      case True
      have "p \<in> set (running @ [p])" by simp
      from IHr [OF this] obtain v a d where
        "outcome (f p) = Inr v" "fst ?rec = a @ on_resume (f p) @ d" by blast
      then have "outcome (f x) = Inr v"
        "?ev = [] @ on_call (f x) @ a @ on_resume (f x) @ d"
        using True ev by simp_all
      then show ?thesis by blast
    next
      case False
      with that p have "x \<in> set ps" by simp
      from IHp [OF this] obtain v a b d where "outcome (f x) = Inr v"
        "fst ?rec = a @ on_call (f x) @ b @ on_resume (f x) @ d" by blast
      then have "outcome (f x) = Inr v"
        "?ev = (on_call (f p) @ a) @ on_call (f x) @ b @ on_resume (f x) @ d"
        using ev by simp_all
      then show ?thesis by blast
    qed
    have run: "(\<exists>v. outcome (f x) = Inr v) \<and> (\<exists>a d. ?ev = a @ on_resume (f x) @ d)"
      if "x \<in> set running" for x
    proof -
      from that have "x \<in> set (running @ [p])" by simp
      from IHr [OF this] obtain v a d where "outcome (f x) = Inr v"
          "fst ?rec = a @ on_resume (f x) @ d" by blast
      then have "outcome (f x) = Inr v"
          "?ev = (on_call (f p) @ a) @ on_resume (f x) @ d"
        using ev by simp_all
      then show ?thesis by blast
    qed
    show ?thesis by (rule conjI; rule ballI; (erule pend | erule run))
  next
    case False
    show ?thesis
    proof (cases "running = []")
      case True
      with False "1.prems" have "pending = []" by auto
      with True show ?thesis by simp
    next
      case nonempty: False
      define x where "x = next_settled pick running"
      have xin: "x \<in> set running"
        using nonempty by (simp add: x_def next_settled_in_running)
      show ?thesis
      proof (cases "outcome (f x)")
        case (Inl err)
        with False nonempty "1.prems" show ?thesis
          by (simp add: pMap_loop_reject x_def)
      next
        case (Inr v)
        let ?rec = "pMap_loop c pick f pending (remove1 x running)"
        have ev: "?ev = on_resume (f x) @ fst ?rec"
          and res: "snd (pMap_loop c pick f pending running) = snd ?rec"
          using False nonempty Inr by (simp_all add: pMap_loop_resolve [where v = v] x_def)
        from res "1.prems" have none: "snd ?rec = None" by simp
        note IH = "1.IH"(2) [OF False nonempty x_def Inr none "1.prems"(2)]
        note IHp = IH [THEN conjunct1, THEN bspec] and IHr = IH [THEN conjunct2, THEN bspec]
        have pend: "(\<exists>v. outcome (f y) = Inr v) \<and>
            (\<exists>a b d. ?ev = a @ on_call (f y) @ b @ on_resume (f y) @ d)"
          if "y \<in> set pending" for y
        proof -
          from IHp [OF that] obtain w a b d where "outcome (f y) = Inr w"
            "fst ?rec = a @ on_call (f y) @ b @ on_resume (f y) @ d" by blast
          then have "outcome (f y) = Inr w"
            "?ev = (on_resume (f x) @ a) @ on_call (f y) @ b @ on_resume (f y) @ d"
            using ev by simp_all
          then show ?thesis by blast
        qed
        have run: "(\<exists>v. outcome (f y) = Inr v) \<and> (\<exists>a d. ?ev = a @ on_resume (f y) @ d)"
          if yin: "y \<in> set running" for y
        proof (cases "y = x")
          case True
          then have "?ev = [] @ on_resume (f y) @ fst ?rec"
            using ev by simp
          with Inr True show ?thesis by blast
        next
          case False
          with yin have "y \<in> set (remove1 x running)" by simp
          from IHr [OF this] obtain w a d where "outcome (f y) = Inr w"
            "fst ?rec = a @ on_resume (f y) @ d" by blast
          then have "outcome (f y) = Inr w"
            "?ev = (on_resume (f x) @ a) @ on_resume (f y) @ d"
            using ev by simp_all
          then show ?thesis by blast
        qed
        show ?thesis by (rule conjI; rule ballI; (erule pend | erule run))
      qed
    qed
  qed
qed

subsection \<open>The two mappers in closed form\<close>

lemma relation_conditions_all_sources:
  "list_all (\<lambda>r. rows_or_empty existingData (sourceTable r) \<noteq> []) rels \<Longrightarrow>
   relation_conditions tableObj t existingData rels acc =
     ([], Some (acc @ map (membership_condition tableObj existingData) rels))"
  by (induction rels arbitrary: acc) (simp_all add: Let_def membership_condition_def)

lemma relation_conditions_empty_source:
  "\<not> list_all (\<lambda>r. rows_or_empty existingData (sourceTable r) \<noteq> []) rels \<Longrightarrow>
   \<exists>src. relation_conditions tableObj t existingData rels acc =
     ([ConsoleLog (SourceHasNoData src t)], None)"
  by (induction rels arbitrary: acc) (auto simp: Let_def)

lemma base_mapper_eq:
  "base_mapper EXPORT_TABLES db userId config =
     (case EXPORT_TABLES (table config) of
        None \<Rightarrow> ([], [], Inl (TableNotFound (table config)))
      | Some tableObj \<Rightarrow>
          (let w = Eq (tableObj (or_default (userField config) ''userId'')) userId
           in ([FindMany (table config) w],
               [case db (table config) w of
                  Inl err \<Rightarrow> ConsoleError (table config) err
                | Inr result \<Rightarrow> ConsoleLog (SuccessfullyExported (table config) (length result))],
               Inr (table config,
                    case db (table config) w of
                      Inl err \<Rightarrow> []
                    | Inr result \<Rightarrow> removeUserId result))))"
  by (simp add: base_mapper_def with_table_def queryBaseTables_def on_call_def on_resume_def
      outcome_def Let_def split: option.split sum.split)

lemma queryTable_eq:
  "list_all (\<lambda>r. rows_or_empty existingData (sourceTable r) \<noteq> []) (relations config) \<Longrightarrow>
   queryTable EXPORT_TABLES db userId config existingData =
     (case EXPORT_TABLES (table config) of
        None \<Rightarrow> ([], [], Inl (TableNotFound (table config)))
      | Some tableObj \<Rightarrow>
          (let w = combine_conditions
                     (map (membership_condition tableObj existingData) (relations config))
           in ([FindMany (table config) w],
               [case db (table config) w of
                  Inl err \<Rightarrow> ConsoleError (table config) err
                | Inr result \<Rightarrow> ConsoleLog (SuccessfullyExported (table config) (length result))],
               case db (table config) w of
                 Inl err \<Rightarrow> Inr []
               | Inr result \<Rightarrow> Inr result)))"
  by (simp add: queryTable_def relation_conditions_all_sources truthy_array_def Let_def
      split: option.split sum.split)

lemma queryTable_empty_source:
  assumes "\<not> list_all (\<lambda>r. rows_or_empty existingData (sourceTable r) \<noteq> [])
             (relations config)"
    and "EXPORT_TABLES (table config) = Some tableObj"
  shows "\<exists>src. queryTable EXPORT_TABLES db userId config existingData =
     ([ConsoleLog (SourceHasNoData src (table config))], [], Inr [])"
proof -
  from relation_conditions_empty_source [OF assms(1)]
  obtain src where
    "relation_conditions tableObj (table config) existingData (relations config) [] =
       ([ConsoleLog (SourceHasNoData src (table config))], None)"
    by blast
  with assms(2) show ?thesis by (simp add: queryTable_def)
qed

lemma relation_mapper_eq:
  "relation_mapper EXPORT_TABLES db userId result config =
     (if \<not> list_all (\<lambda>r. rows_or_empty result (sourceTable r) \<noteq> []) (relations config)
      then ([ConsoleLog (SkippingTable (table config))], [], Inr (table config, []))
      else
        (case EXPORT_TABLES (table config) of
           None \<Rightarrow> ([], [], Inl (TableNotFound (table config)))
         | Some tableObj \<Rightarrow>
             (let w = combine_conditions
                        (map (membership_condition tableObj result) (relations config))
              in ([FindMany (table config) w],
                  [case db (table config) w of
                     Inl err \<Rightarrow> ConsoleError (table config) err
                   | Inr rows \<Rightarrow> ConsoleLog (SuccessfullyExported (table config) (length rows))],
                  Inr (table config,
                       case db (table config) w of
                         Inl err \<Rightarrow> []
                       | Inr rows \<Rightarrow> rows)))))"
  by (simp add: relation_mapper_def queryTable_eq with_table_def on_call_def on_resume_def
      outcome_def Let_def split: option.split sum.split)

subsection \<open>The bounded parallel map\<close>

lemma resolved_values_map:
  "\<forall>x \<in> set xs. f x = Inr (g x) \<Longrightarrow> resolved_values (map f xs) = map g xs"
  by (induction xs) simp_all

lemma pMap_resolved:
  assumes "pMap items f c pick = (ev, Inr rs)"
  shows "1 \<le> c"
    and "rs = resolved_values (map (\<lambda>x. outcome (f x)) items)"
    and "\<And>x. x \<in> set items \<Longrightarrow> \<exists>v. outcome (f x) = Inr v"
    and "\<And>x. x \<in> set items \<Longrightarrow> \<exists>a b d. ev = a @ on_call (f x) @ b @ on_resume (f x) @ d"
proof -
  from assms show c: "1 \<le> c"
    by (simp add: pMap_def split: if_splits)
  let ?loop = "pMap_loop (nat c) pick f items []"
  from assms c have none: "snd ?loop = None" and ev: "ev = fst ?loop"
    and rs: "rs = resolved_values (map (\<lambda>x. outcome (f x)) items)"
    by (auto simp: pMap_def split: prod.splits option.splits)
  from rs show "rs = resolved_values (map (\<lambda>x. outcome (f x)) items)" .
  from c have "items \<noteq> [] \<longrightarrow> 0 < nat c" by simp
  note all = pMap_loop_resolved [OF none this, THEN conjunct1, THEN bspec]
  fix x assume x: "x \<in> set items"
  from all [OF x] show "\<exists>v. outcome (f x) = Inr v" by (rule conjunct1)
  from all [OF x] ev
  show "\<exists>a b d. ev = a @ on_call (f x) @ b @ on_resume (f x) @ d" by simp
qed

lemma pMap_rejected:
  assumes "pMap items f c pick = (ev, Inl e)"
  shows "(c < 1 \<and> e = ConcurrencyTypeError) \<or> (1 \<le> c \<and> (\<exists>x \<in> set items. outcome (f x) = Inl e))"
proof (cases "c < 1")
  case True
  with assms show ?thesis by (simp add: pMap_def)
next
  case False
  with assms have "snd (pMap_loop (nat c) pick f items []) = Some e"
    by (auto simp: pMap_def split: prod.splits option.splits)
  from pMap_loop_rejected [OF this] False show ?thesis by simp
qed

lemma pMap_events:
  assumes "e \<in> set (fst (pMap items f c pick))"
  shows "\<exists>x \<in> set items. e \<in> set (on_call (f x)) \<or> e \<in> set (on_resume (f x))"
proof -
  from assms have "e \<in> set (fst (pMap_loop (nat c) pick f items []))"
    by (auto simp: pMap_def split: if_splits prod.splits option.splits)
  from pMap_loop_events [OF this] show ?thesis by auto
qed

lemma pMap_total:
  assumes "1 \<le> c" and "\<forall>x \<in> set items. \<exists>v. outcome (f x) = Inr v"
  shows "\<exists>ev. pMap items f c pick =
           (ev, Inr (resolved_values (map (\<lambda>x. outcome (f x)) items)))"
proof (cases "snd (pMap_loop (nat c) pick f items [])")
  case None
  with assms(1) show ?thesis
    by (cases "pMap_loop (nat c) pick f items []") (simp add: pMap_def)
next
  case (Some e)
  from pMap_loop_rejected [OF this] assms(2) show ?thesis by auto
qed

lemma pMap_fails:
  assumes "1 \<le> c" and "x \<in> set items" and "outcome (f x) = Inl e"
  shows "\<exists>ev e'. pMap items f c pick = (ev, Inl e') \<and> (\<exists>y \<in> set items. outcome (f y) = Inl e')"
proof (cases "pMap items f c pick")
  case (Pair ev r)
  show ?thesis
  proof (cases r)
    case (Inl e')
    with Pair assms(1) pMap_rejected [of items f c pick ev e'] show ?thesis by auto
  next
    case (Inr rs)
    with Pair pMap_resolved(3) [of items f c pick ev rs x] assms show ?thesis by auto
  qed
qed

subsection \<open>Writing results into the mapping\<close>

lemma set_results_append:
  "set_results (rs @ [(t, d)]) m = (set_results rs m)(t \<mapsto> d)"
  by (simp add: set_results_def)

lemma set_results_Nil: "set_results [] m = m"
  by (simp add: set_results_def)


lemma set_results_other:
  "t \<notin> fst ` set rs \<Longrightarrow> set_results rs m t = m t"
proof (induction rs rule: rev_induct)
  case Nil
  show ?case by (simp add: set_results_Nil)
next
  case (snoc x xs)
  obtain t' d where x: "x = (t', d)" by (cases x)
  from snoc.prems x have "t \<noteq> t'" and "t \<notin> fst ` set xs" by auto
  with snoc.IH x show ?case by (simp add: set_results_append)
qed

lemma set_results_distinct:
  "distinct (map fst rs) \<Longrightarrow> (t, d) \<in> set rs \<Longrightarrow> set_results rs m t = Some d"
proof (induction rs rule: rev_induct)
  case Nil
  then show ?case by simp
next
  case (snoc x xs)
  obtain t' d' where x: "x = (t', d')" by (cases x)
  from snoc.prems(1) x have dist: "distinct (map fst xs)" and fresh: "t' \<notin> fst ` set xs"
    by simp_all
  show ?case
  proof (cases "t' = t")
    case True
    with snoc.prems(2) x fresh have "d' = d" by (auto simp: image_iff)
    with True x show ?thesis by (simp add: set_results_append)
  next
    case False
    with snoc.prems(2) x have "(t, d) \<in> set xs" by auto
    from snoc.IH [OF dist this] False x show ?thesis by (simp add: set_results_append)
  qed
qed

lemma removeUserId_nth:
  "i < length data \<Longrightarrow> removeUserId data ! i = filter (\<lambda>(k, v). k \<noteq> ''userId'') (data ! i)"
  by (simp add: removeUserId_def)

lemma queryBaseTables_outcome:
  "EXPORT_TABLES (table config) = Some tableObj \<Longrightarrow>
   outcome (queryBaseTables EXPORT_TABLES db userId config) =
     (case db (table config) (Eq (tableObj (or_default (userField config) ''userId'')) userId) of
        Inl err \<Rightarrow> Inr []
      | Inr result \<Rightarrow> Inr (removeUserId result))"
  by (simp add: queryBaseTables_def outcome_def Let_def split: sum.split)

subsection \<open>The clear action\<close>

lemma await_run_sequence:
  "await name action (run_sequence rest) = run_sequence ((name, action) # rest)"
  by (rule ext) (simp add: await_def)

lemma success_run_sequence:
  "(\<lambda>s. (None, (fst s, snd s @ [MessageSuccess]))) = run_sequence []"
  by (rule ext) simp

lemma onOk_run_sequence: "onOk st s = run_sequence (documented_order st) s"
  by (simp only: onOk_def documented_order_def success_run_sequence await_run_sequence)

lemma state_after_Cons:
  "state_after ((name, action) # rest) w = state_after rest (snd (action w))"
  by (simp add: state_after_def)

lemma run_sequence_first_failure:
  assumes "k \<le> length steps"
    and "\<forall>i<k. fst (snd (steps ! i) (state_after (take i steps) w)) = None"
    and "k < length steps \<longrightarrow>
           fst (snd (steps ! k) (state_after (take k steps) w)) = Some err"
  shows "run_sequence steps (w, tr) =
     (if k = length steps
      then (None, (state_after steps w, tr @ map (\<lambda>x. Called (fst x)) steps @ [MessageSuccess]))
      else (Some err, (state_after (take (Suc k) steps) w,
                       tr @ map (\<lambda>x. Called (fst x)) (take (Suc k) steps))))"
  using assms
proof (induction steps arbitrary: k w tr)
  case Nil
  then show ?case by (simp add: state_after_def)
next
  case (Cons x rest)
  obtain name action where x: "x = (name, action)" by (cases x)
  obtain r w' where aw: "action w = (r, w')" by (cases "action w")
  show ?case
  proof (cases k)
    case 0
    with Cons.prems(3) x aw have "r = Some err" by (simp add: state_after_def)
    with 0 x aw show ?thesis by (simp add: state_after_def)
  next
    case (Suc k')
    from Cons.prems(2) Suc x aw have r: "r = None"
      by (auto simp: state_after_def dest: spec [of _ 0])
    have le: "k' \<le> length rest" using Cons.prems(1) Suc by simp
    have ok: "\<forall>i<k'. fst (snd (rest ! i) (state_after (take i rest) w')) = None"
    proof (intro allI impI)
      fix i assume "i < k'"
      then have "Suc i < k" using Suc by simp
      with Cons.prems(2) have "fst (snd ((x # rest) ! Suc i)
          (state_after (take (Suc i) (x # rest)) w)) = None" by blast
      with x aw show "fst (snd (rest ! i) (state_after (take i rest) w')) = None"
        by (simp add: state_after_Cons)
    qed
    have bad: "k' < length rest \<longrightarrow>
           fst (snd (rest ! k') (state_after (take k' rest) w')) = Some err"
      using Cons.prems(3) Suc x aw by (simp add: state_after_Cons)
    from Cons.IH [OF le ok bad, of "tr @ [Called name]"] Suc x aw r
    show ?thesis by (simp add: state_after_Cons)
  qed
qed

text \<open>
  C8: confirming the clear action calls the six clear operations one after the other in
  the order sessions, plugins, topics, files, messages, session groups, each once, and
  shows the success message after all six; when the operation at position \<open>k\<close> is the
  first to fail, the operations after it are not called, no success message is shown,
  and the state is the one left by the operations that ran: nothing is rolled back.
\<close>

theorem handleClear_runs_in_order_until_first_failure:
  assumes "k \<le> 6"
    and "\<forall>i<k. fst (snd (documented_order st ! i)
                      (state_after (take i (documented_order st)) w)) = None"
    and "k < 6 \<longrightarrow> fst (snd (documented_order st ! k)
                      (state_after (take k (documented_order st)) w)) = Some err"
  shows "handleClear st True (w, tr) =
     (if k = 6
      then (None, (state_after (documented_order st) w,
                   tr @ [Called ClearSessions, Called RemoveAllPlugins, Called ClearTopics,
                         Called RemoveAllFiles, Called ClearAllMessages,
                         Called ClearSessionGroups, MessageSuccess]))
      else (Some err, (state_after (take (Suc k) (documented_order st)) w,
                       tr @ take (Suc k)
                              [Called ClearSessions, Called RemoveAllPlugins,
                               Called ClearTopics, Called RemoveAllFiles,
                               Called ClearAllMessages, Called ClearSessionGroups])))"
proof -
  have len: "length (documented_order st) = 6"
    by (simp add: documented_order_def)
  have names: "map (\<lambda>x. Called (fst x)) (documented_order st) =
      [Called ClearSessions, Called RemoveAllPlugins, Called ClearTopics,
       Called RemoveAllFiles, Called ClearAllMessages, Called ClearSessionGroups]"
    by (simp add: documented_order_def)
  from assms len have
    "run_sequence (documented_order st) (w, tr) =
     (if k = length (documented_order st)
      then (None, (state_after (documented_order st) w,
                   tr @ map (\<lambda>x. Called (fst x)) (documented_order st) @ [MessageSuccess]))
      else (Some err, (state_after (take (Suc k) (documented_order st)) w,
                       tr @ map (\<lambda>x. Called (fst x)) (take (Suc k) (documented_order st)))))"
    by (intro run_sequence_first_failure) simp_all
  then show ?thesis
    by (simp add: handleClear_def onOk_run_sequence len names take_map [symmetric])
qed

theorem handleClear_runs_in_order_until_first_failure_witness:
  "handleClear (demo_stores True) True (demo_state, []) =
     (Some ''request failed'',
      ([''topics'', ''files'', ''messages'', ''sessionGroups''],
       [Called ClearSessions, Called RemoveAllPlugins, Called ClearTopics])) \<and>
   handleClear (demo_stores False) True (demo_state, []) =
     (None,
      ([],
       [Called ClearSessions, Called RemoveAllPlugins, Called ClearTopics,
        Called RemoveAllFiles, Called ClearAllMessages, Called ClearSessionGroups,
        MessageSuccess]))"
proof -
  have fail_ok: "\<forall>i<2. fst (snd (documented_order (demo_stores True) ! i)
          (state_after (take i (documented_order (demo_stores True))) demo_state)) = None"
    by (simp add: All_less_Suc eval_nat_numeral documented_order_def demo_stores_def
        state_after_def)
  have fail_bad: "(2::nat) < 6 \<longrightarrow> fst (snd (documented_order (demo_stores True) ! 2)
          (state_after (take 2 (documented_order (demo_stores True))) demo_state))
        = Some ''request failed''"
    by (simp add: documented_order_def demo_stores_def state_after_def)
  have all_ok: "\<forall>i<6. fst (snd (documented_order (demo_stores False) ! i)
          (state_after (take i (documented_order (demo_stores False))) demo_state)) = None"
    by (simp add: All_less_Suc eval_nat_numeral documented_order_def demo_stores_def
        state_after_def)
  have first: "handleClear (demo_stores True) True (demo_state, []) =
     (Some ''request failed'',
      ([''topics'', ''files'', ''messages'', ''sessionGroups''],
       [Called ClearSessions, Called RemoveAllPlugins, Called ClearTopics]))"
    using handleClear_runs_in_order_until_first_failure
      [of 2 "demo_stores True" demo_state "''request failed''" "[]", OF _ fail_ok fail_bad]
    by (simp add: documented_order_def demo_stores_def state_after_def demo_state_def
        eval_nat_numeral)
  have second: "handleClear (demo_stores False) True (demo_state, []) =
     (None,
      ([],
       [Called ClearSessions, Called RemoveAllPlugins, Called ClearTopics,
        Called RemoveAllFiles, Called ClearAllMessages, Called ClearSessionGroups,
        MessageSuccess]))"
    using handleClear_runs_in_order_until_first_failure
      [of 6 "demo_stores False" demo_state "''none''" "[]", OF _ all_ok]
    by (simp add: documented_order_def demo_stores_def state_after_def demo_state_def)
  from first second show ?thesis by (rule conjI)
qed

subsection \<open>What the mappers do\<close>

lemma base_mapper_on_call:
  "on_call (base_mapper EXPORT_TABLES db userId config) =
     (case EXPORT_TABLES (table config) of
        None \<Rightarrow> []
      | Some tableObj \<Rightarrow>
          [FindMany (table config) (Eq (tableObj (or_default (userField config) ''userId'')) userId)])"
  by (simp add: base_mapper_eq on_call_def Let_def split: option.split)

lemma base_mapper_on_resume:
  "on_resume (base_mapper EXPORT_TABLES db userId config) =
     (case EXPORT_TABLES (table config) of
        None \<Rightarrow> []
      | Some tableObj \<Rightarrow>
          [case db (table config)
                  (Eq (tableObj (or_default (userField config) ''userId'')) userId) of
             Inl err \<Rightarrow> ConsoleError (table config) err
           | Inr result \<Rightarrow> ConsoleLog (SuccessfullyExported (table config) (length result))])"
  by (simp add: base_mapper_eq on_resume_def Let_def split: option.split)

lemma base_mapper_outcome:
  "outcome (base_mapper EXPORT_TABLES db userId config) =
     (case EXPORT_TABLES (table config) of
        None \<Rightarrow> Inl (TableNotFound (table config))
      | Some tableObj \<Rightarrow>
          Inr (table config,
               case db (table config)
                      (Eq (tableObj (or_default (userField config) ''userId'')) userId) of
                 Inl err \<Rightarrow> []
               | Inr result \<Rightarrow> removeUserId result))"
  by (simp add: base_mapper_eq outcome_def Let_def split: option.split)

lemma base_mapper_resolves:
  "EXPORT_TABLES (table config) \<noteq> None \<Longrightarrow>
   outcome (base_mapper EXPORT_TABLES db userId config) =
     Inr (table config, rows_of (base_mapper EXPORT_TABLES db userId config))"
  by (cases "EXPORT_TABLES (table config)") (simp_all add: rows_of_def base_mapper_outcome)

lemma base_mapper_registered:
  "outcome (base_mapper EXPORT_TABLES db userId config) = Inr v \<Longrightarrow>
   EXPORT_TABLES (table config) \<noteq> None"
  by (cases "EXPORT_TABLES (table config)") (simp_all add: base_mapper_outcome)

lemma relation_mapper_on_call:
  "on_call (relation_mapper EXPORT_TABLES db userId result config) =
     (if \<not> list_all (\<lambda>r. rows_or_empty result (sourceTable r) \<noteq> []) (relations config)
      then [ConsoleLog (SkippingTable (table config))]
      else
        (case EXPORT_TABLES (table config) of
           None \<Rightarrow> []
         | Some tableObj \<Rightarrow>
             [FindMany (table config)
                (combine_conditions
                   (map (membership_condition tableObj result) (relations config)))]))"
  by (simp add: relation_mapper_eq on_call_def Let_def split: option.split)

lemma relation_mapper_on_resume:
  "on_resume (relation_mapper EXPORT_TABLES db userId result config) =
     (if \<not> list_all (\<lambda>r. rows_or_empty result (sourceTable r) \<noteq> []) (relations config)
      then []
      else
        (case EXPORT_TABLES (table config) of
           None \<Rightarrow> []
         | Some tableObj \<Rightarrow>
             [case db (table config)
                     (combine_conditions
                        (map (membership_condition tableObj result) (relations config))) of
                Inl err \<Rightarrow> ConsoleError (table config) err
              | Inr rows \<Rightarrow> ConsoleLog (SuccessfullyExported (table config) (length rows))]))"
  by (simp add: relation_mapper_eq on_resume_def Let_def split: option.split)

lemma relation_mapper_outcome:
  "outcome (relation_mapper EXPORT_TABLES db userId result config) =
     (if \<not> list_all (\<lambda>r. rows_or_empty result (sourceTable r) \<noteq> []) (relations config)
      then Inr (table config, [])
      else
        (case EXPORT_TABLES (table config) of
           None \<Rightarrow> Inl (TableNotFound (table config))
         | Some tableObj \<Rightarrow>
             Inr (table config,
                  case db (table config)
                         (combine_conditions
                            (map (membership_condition tableObj result) (relations config))) of
                    Inl err \<Rightarrow> []
                  | Inr rows \<Rightarrow> rows)))"
  by (simp add: relation_mapper_eq outcome_def Let_def split: option.split)

lemma relation_mapper_resolves:
  "outcome (relation_mapper EXPORT_TABLES db userId result config) = Inr v \<Longrightarrow>
   v = (table config, rows_of (relation_mapper EXPORT_TABLES db userId result config))"
  by (cases "EXPORT_TABLES (table config)")
     (auto simp: rows_of_def relation_mapper_outcome split: if_splits)

lemma base_mapper_FindMany:
  assumes "FindMany t w \<in> set (on_call (base_mapper EXPORT_TABLES db userId config)) \<or>
           FindMany t w \<in> set (on_resume (base_mapper EXPORT_TABLES db userId config))"
  shows "t = table config \<and>
         (\<exists>tableObj. EXPORT_TABLES t = Some tableObj \<and>
            w = Eq (tableObj (or_default (userField config) ''userId'')) userId)"
proof (cases "EXPORT_TABLES (table config)")
  case None
  with assms show ?thesis by (simp add: base_mapper_on_call base_mapper_on_resume)
next
  case (Some tableObj)
  with assms show ?thesis
    by (cases "db (table config)
                 (Eq (tableObj (or_default (userField config) ''userId'')) userId)")
       (simp_all add: base_mapper_on_call base_mapper_on_resume)
qed

lemma relation_mapper_FindMany:
  assumes "FindMany t w \<in> set (on_call (relation_mapper EXPORT_TABLES db userId result config)) \<or>
           FindMany t w \<in> set (on_resume (relation_mapper EXPORT_TABLES db userId result config))"
  shows "t = table config \<and>
         list_all (\<lambda>r. rows_or_empty result (sourceTable r) \<noteq> []) (relations config) \<and>
         (\<exists>tableObj. EXPORT_TABLES t = Some tableObj \<and>
            w = combine_conditions
                  (map (membership_condition tableObj result) (relations config)))"
proof (cases "list_all (\<lambda>r. rows_or_empty result (sourceTable r) \<noteq> []) (relations config)")
  case False
  with assms show ?thesis by (simp add: relation_mapper_on_call relation_mapper_on_resume)
next
  case all: True
  show ?thesis
  proof (cases "EXPORT_TABLES (table config)")
    case None
    with assms all show ?thesis by (simp add: relation_mapper_on_call relation_mapper_on_resume)
  next
    case (Some tableObj)
    with assms all show ?thesis
      by (cases "db (table config)
                   (combine_conditions
                      (map (membership_condition tableObj result) (relations config)))")
         (simp_all add: relation_mapper_on_call relation_mapper_on_resume)
  qed
qed

subsection \<open>The two phases of \<open>export\<close>\<close>

lemma export_base_rejected:
  assumes "pMap (baseTables cfg) (base_mapper EXPORT_TABLES db userId) c pick_base = (ev1, Inl e)"
  shows "export EXPORT_TABLES db userId cfg pick_base pick_relation c =
           (ConsoleLog QueryingBaseTables # ev1, Inl e)"
  using assms by (simp add: export_def)

lemma export_base_resolved:
  assumes "pMap (baseTables cfg) (base_mapper EXPORT_TABLES db userId) c pick_base = (ev1, Inr B)"
  shows "export EXPORT_TABLES db userId cfg pick_base pick_relation c =
     (ConsoleLog QueryingBaseTables # ev1 @
        [ConsoleLog (BaseResults B), ConsoleLog QueryingRelationTables] @
        fst (pMap (relationTables cfg)
               (relation_mapper EXPORT_TABLES db userId
                  (result_after_base_phase EXPORT_TABLES db userId cfg))
               c pick_relation),
      case snd (pMap (relationTables cfg)
                  (relation_mapper EXPORT_TABLES db userId
                     (result_after_base_phase EXPORT_TABLES db userId cfg))
                  c pick_relation) of
        Inl e \<Rightarrow> Inl e
      | Inr R \<Rightarrow> Inr (set_results R (result_after_base_phase EXPORT_TABLES db userId cfg)))"
proof -
  from pMap_resolved(2) [OF assms]
  have "set_results B Map.empty = result_after_base_phase EXPORT_TABLES db userId cfg"
    by (simp add: result_after_base_phase_def)
  with assms show ?thesis
    by (simp add: export_def Let_def split: prod.split sum.split)
qed

lemma base_results_when_registered:
  assumes "\<forall>bc \<in> set (baseTables cfg). EXPORT_TABLES (table bc) \<noteq> None"
  shows "resolved_values
           (map (\<lambda>config. outcome (base_mapper EXPORT_TABLES db userId config)) (baseTables cfg)) =
         map (\<lambda>bc. (table bc, rows_of (base_mapper EXPORT_TABLES db userId bc))) (baseTables cfg)"
  using assms by (intro resolved_values_map) (simp add: base_mapper_resolves)


lemma result_after_base_phase_at:
  assumes "\<forall>bc \<in> set (baseTables cfg). EXPORT_TABLES (table bc) \<noteq> None"
    and "distinct (map table (baseTables cfg))"
    and "bc \<in> set (baseTables cfg)"
  shows "result_after_base_phase EXPORT_TABLES db userId cfg (table bc) =
           Some (rows_of (base_mapper EXPORT_TABLES db userId bc))"
proof -
  let ?B = "map (\<lambda>bc. (table bc, rows_of (base_mapper EXPORT_TABLES db userId bc)))
              (baseTables cfg)"
  have "map fst ?B = map table (baseTables cfg)" by (simp add: comp_def)
  with assms(2) have "distinct (map fst ?B)" by (simp only:)
  moreover from assms(3)
  have "(table bc, rows_of (base_mapper EXPORT_TABLES db userId bc)) \<in> set ?B" by auto
  ultimately have "set_results ?B Map.empty (table bc) =
      Some (rows_of (base_mapper EXPORT_TABLES db userId bc))"
    by (rule set_results_distinct)
  then show ?thesis
    by (simp add: result_after_base_phase_def base_results_when_registered [OF assms(1)])
qed

subsection \<open>Runs of \<open>export\<close> that return a mapping\<close>

lemma export_returns_phases:
  assumes "export EXPORT_TABLES db userId cfg pick_base pick_relation c = (evs, Inr m)"
  obtains ev1 B ev2 R where
    "pMap (baseTables cfg) (base_mapper EXPORT_TABLES db userId) c pick_base = (ev1, Inr B)"
    "pMap (relationTables cfg)
       (relation_mapper EXPORT_TABLES db userId
          (result_after_base_phase EXPORT_TABLES db userId cfg))
       c pick_relation = (ev2, Inr R)"
    "evs = ConsoleLog QueryingBaseTables # ev1 @
             [ConsoleLog (BaseResults B), ConsoleLog QueryingRelationTables] @ ev2"
    "m = set_results R (result_after_base_phase EXPORT_TABLES db userId cfg)"
proof -
  obtain ev1 r1 where p1:
    "pMap (baseTables cfg) (base_mapper EXPORT_TABLES db userId) c pick_base = (ev1, r1)"
    by (cases "pMap (baseTables cfg) (base_mapper EXPORT_TABLES db userId) c pick_base")
  show thesis
  proof (cases r1)
    case (Inl e)
    with p1 export_base_rejected [of cfg EXPORT_TABLES db userId c pick_base ev1 e pick_relation]
      assms show ?thesis by simp
  next
    case (Inr B)
    let ?rel = "pMap (relationTables cfg)
       (relation_mapper EXPORT_TABLES db userId
          (result_after_base_phase EXPORT_TABLES db userId cfg))
       c pick_relation"
    obtain ev2 r2 where p2: "?rel = (ev2, r2)" by (cases ?rel)
    from p1 Inr have base: "pMap (baseTables cfg) (base_mapper EXPORT_TABLES db userId) c pick_base
        = (ev1, Inr B)" by simp
    note ex = export_base_resolved [OF base, of pick_relation]
    show ?thesis
    proof (cases r2)
      case (Inl e)
      with ex p2 assms show ?thesis by simp
    next
      case (Inr R)
      with ex p2 assms have
        "evs = ConsoleLog QueryingBaseTables # ev1 @
             [ConsoleLog (BaseResults B), ConsoleLog QueryingRelationTables] @ ev2"
        "m = set_results R (result_after_base_phase EXPORT_TABLES db userId cfg)"
        by simp_all
      with base p2 Inr that show ?thesis by simp
    qed
  qed
qed

lemma export_returns_registered:
  assumes "export EXPORT_TABLES db userId cfg pick_base pick_relation c = (evs, Inr m)"
  shows "1 \<le> c" and "\<forall>bc \<in> set (baseTables cfg). EXPORT_TABLES (table bc) \<noteq> None"
proof -
  from assms obtain ev1 B where
    base: "pMap (baseTables cfg) (base_mapper EXPORT_TABLES db userId) c pick_base = (ev1, Inr B)"
    by (rule export_returns_phases)
  from pMap_resolved(1) [OF base] show "1 \<le> c" .
  show "\<forall>bc \<in> set (baseTables cfg). EXPORT_TABLES (table bc) \<noteq> None"
  proof
    fix bc assume "bc \<in> set (baseTables cfg)"
    from pMap_resolved(3) [OF base this] obtain v where
      "outcome (base_mapper EXPORT_TABLES db userId bc) = Inr v" by blast
    then show "EXPORT_TABLES (table bc) \<noteq> None" by (rule base_mapper_registered)
  qed
qed

lemma relation_results_when_resolved:
  assumes "\<forall>rc \<in> set rcs. \<exists>v. outcome (relation_mapper EXPORT_TABLES db userId result rc) = Inr v"
  shows "resolved_values
           (map (\<lambda>rc. outcome (relation_mapper EXPORT_TABLES db userId result rc)) rcs) =
         map (\<lambda>rc. (table rc, rows_of (relation_mapper EXPORT_TABLES db userId result rc))) rcs"
proof (rule resolved_values_map, rule ballI)
  fix rc assume "rc \<in> set rcs"
  with assms obtain v where v: "outcome (relation_mapper EXPORT_TABLES db userId result rc) = Inr v"
    by blast
  from relation_mapper_resolves [OF v] v
  show "outcome (relation_mapper EXPORT_TABLES db userId result rc) =
      Inr (table rc, rows_of (relation_mapper EXPORT_TABLES db userId result rc))" by simp
qed

lemma export_returns_mapping:
  assumes "export EXPORT_TABLES db userId cfg pick_base pick_relation c = (evs, Inr m)"
  shows "m = set_results
               (map (\<lambda>rc. (table rc,
                      rows_of (relation_mapper EXPORT_TABLES db userId
                                 (result_after_base_phase EXPORT_TABLES db userId cfg) rc)))
                  (relationTables cfg))
               (result_after_base_phase EXPORT_TABLES db userId cfg)"
proof -
  from assms obtain ev2 R where
    rel: "pMap (relationTables cfg)
       (relation_mapper EXPORT_TABLES db userId
          (result_after_base_phase EXPORT_TABLES db userId cfg))
       c pick_relation = (ev2, Inr R)"
    and m: "m = set_results R (result_after_base_phase EXPORT_TABLES db userId cfg)"
    by (rule export_returns_phases)
  from pMap_resolved(3) [OF rel]
  have "\<forall>rc \<in> set (relationTables cfg). \<exists>v.
      outcome (relation_mapper EXPORT_TABLES db userId
                 (result_after_base_phase EXPORT_TABLES db userId cfg) rc) = Inr v"
    by blast
  from relation_results_when_resolved [OF this] pMap_resolved(2) [OF rel] m
  show ?thesis by simp
qed


lemma export_returns_base_rows:
  assumes "export EXPORT_TABLES db userId cfg pick_base pick_relation c = (evs, Inr m)"
    and "distinct (all_tables cfg)"
    and "bc \<in> set (baseTables cfg)"
  shows "m (table bc) = Some (rows_of (base_mapper EXPORT_TABLES db userId bc))"
proof -
  note reg = export_returns_registered(2) [OF assms(1)]
  from assms(2) have dist: "distinct (map table (baseTables cfg))"
    and disj: "set (map table (baseTables cfg)) \<inter> set (map table (relationTables cfg)) = {}"
    by (simp_all add: all_tables_def)
  from disj assms(3) have "table bc \<notin> table ` set (relationTables cfg)" by auto
  then have "table bc \<notin> fst ` set (map (\<lambda>rc. (table rc,
                      rows_of (relation_mapper EXPORT_TABLES db userId
                                 (result_after_base_phase EXPORT_TABLES db userId cfg) rc)))
                  (relationTables cfg))"
    by (simp add: image_image)
  from set_results_other [OF this] result_after_base_phase_at [OF reg dist assms(3)]
  show ?thesis
    by (subst export_returns_mapping [OF assms(1)]) simp
qed

lemma export_returns_relation_rows:
  assumes "export EXPORT_TABLES db userId cfg pick_base pick_relation c = (evs, Inr m)"
    and "distinct (all_tables cfg)"
    and "rc \<in> set (relationTables cfg)"
  shows "m (table rc) =
           Some (rows_of (relation_mapper EXPORT_TABLES db userId
                            (result_after_base_phase EXPORT_TABLES db userId cfg) rc))"
proof -
  let ?R = "map (\<lambda>rc. (table rc,
                      rows_of (relation_mapper EXPORT_TABLES db userId
                                 (result_after_base_phase EXPORT_TABLES db userId cfg) rc)))
                  (relationTables cfg)"
  have "map fst ?R = map table (relationTables cfg)" by (simp add: comp_def)
  moreover from assms(2) have "distinct (map table (relationTables cfg))"
    by (simp add: all_tables_def)
  ultimately have "distinct (map fst ?R)" by (simp only:)
  moreover from assms(3)
  have "(table rc, rows_of (relation_mapper EXPORT_TABLES db userId
                (result_after_base_phase EXPORT_TABLES db userId cfg) rc)) \<in> set ?R"
    by auto
  ultimately show ?thesis
    by (subst export_returns_mapping [OF assms(1)]) (rule set_results_distinct)
qed

lemma export_returns_when_resolved:
  assumes "1 \<le> c"
    and "\<forall>bc \<in> set (baseTables cfg). EXPORT_TABLES (table bc) \<noteq> None"
    and "\<forall>rc \<in> set (relationTables cfg). \<exists>v.
           outcome (relation_mapper EXPORT_TABLES db userId
                      (result_after_base_phase EXPORT_TABLES db userId cfg) rc) = Inr v"
  shows "\<exists>evs m. export EXPORT_TABLES db userId cfg pick_base pick_relation c = (evs, Inr m)"
proof -
  from assms(2) have "\<forall>bc \<in> set (baseTables cfg). \<exists>v.
      outcome (base_mapper EXPORT_TABLES db userId bc) = Inr v"
    by (simp add: base_mapper_resolves)
  from pMap_total [OF assms(1) this] obtain ev1 B where
    base: "pMap (baseTables cfg) (base_mapper EXPORT_TABLES db userId) c pick_base = (ev1, Inr B)"
    by blast
  from pMap_total [OF assms(1) assms(3)] obtain ev2 R where
    "pMap (relationTables cfg)
       (relation_mapper EXPORT_TABLES db userId
          (result_after_base_phase EXPORT_TABLES db userId cfg))
       c pick_relation = (ev2, Inr R)"
    by blast
  with export_base_resolved [OF base, of pick_relation] show ?thesis by simp
qed

lemma relation_mapper_resolves_when_registered:
  "EXPORT_TABLES (table rc) \<noteq> None \<Longrightarrow>
   \<exists>v. outcome (relation_mapper EXPORT_TABLES db userId result rc) = Inr v"
  by (cases "EXPORT_TABLES (table rc)") (simp_all add: relation_mapper_outcome)

lemma export_returns_when_registered:
  assumes "1 \<le> c" and "registered EXPORT_TABLES cfg"
  shows "\<exists>evs m. export EXPORT_TABLES db userId cfg pick_base pick_relation c = (evs, Inr m)"
proof (rule export_returns_when_resolved [OF assms(1)])
  from assms(2) show "\<forall>bc \<in> set (baseTables cfg). EXPORT_TABLES (table bc) \<noteq> None"
    by (simp add: registered_def all_tables_def list_all_iff)
  from assms(2) have reg: "\<forall>rc \<in> set (relationTables cfg). EXPORT_TABLES (table rc) \<noteq> None"
    by (simp add: registered_def all_tables_def list_all_iff)
  show "\<forall>rc \<in> set (relationTables cfg). \<exists>v.
           outcome (relation_mapper EXPORT_TABLES db userId
                      (result_after_base_phase EXPORT_TABLES db userId cfg) rc) = Inr v"
  proof
    fix rc assume "rc \<in> set (relationTables cfg)"
    with reg have "EXPORT_TABLES (table rc) \<noteq> None" by blast
    then show "\<exists>v. outcome (relation_mapper EXPORT_TABLES db userId
                      (result_after_base_phase EXPORT_TABLES db userId cfg) rc) = Inr v"
      by (rule relation_mapper_resolves_when_registered)
  qed
qed

subsection \<open>The events of a run of \<open>export\<close>\<close>

lemma export_events_shape:
  "(\<exists>e. snd (pMap (baseTables cfg) (base_mapper EXPORT_TABLES db userId) c pick_base) = Inl e \<and>
        fst (export EXPORT_TABLES db userId cfg pick_base pick_relation c) =
          ConsoleLog QueryingBaseTables #
          fst (pMap (baseTables cfg) (base_mapper EXPORT_TABLES db userId) c pick_base)) \<or>
   (\<exists>B. snd (pMap (baseTables cfg) (base_mapper EXPORT_TABLES db userId) c pick_base) = Inr B \<and>
        fst (export EXPORT_TABLES db userId cfg pick_base pick_relation c) =
          (ConsoleLog QueryingBaseTables #
           fst (pMap (baseTables cfg) (base_mapper EXPORT_TABLES db userId) c pick_base) @
           [ConsoleLog (BaseResults B), ConsoleLog QueryingRelationTables]) @
          fst (pMap (relationTables cfg)
                 (relation_mapper EXPORT_TABLES db userId
                    (result_after_base_phase EXPORT_TABLES db userId cfg))
                 c pick_relation))"
proof -
  obtain ev1 r1 where p1:
    "pMap (baseTables cfg) (base_mapper EXPORT_TABLES db userId) c pick_base = (ev1, r1)"
    by (cases "pMap (baseTables cfg) (base_mapper EXPORT_TABLES db userId) c pick_base")
  show ?thesis
  proof (cases r1)
    case (Inl e)
    with p1 export_base_rejected [of cfg EXPORT_TABLES db userId c pick_base ev1 e pick_relation]
    show ?thesis by simp
  next
    case (Inr B)
    with p1 export_base_resolved [of cfg EXPORT_TABLES db userId c pick_base ev1 B pick_relation]
    show ?thesis by simp
  qed
qed

lemma export_FindMany:
  assumes "FindMany t w \<in> set (fst (export EXPORT_TABLES db userId cfg pick_base pick_relation c))"
  shows "(\<exists>bc \<in> set (baseTables cfg). t = table bc \<and>
            (\<exists>tableObj. EXPORT_TABLES t = Some tableObj \<and>
               w = Eq (tableObj (or_default (userField bc) ''userId'')) userId)) \<or>
         (\<exists>rc \<in> set (relationTables cfg). t = table rc \<and>
            list_all (\<lambda>r. rows_or_empty (result_after_base_phase EXPORT_TABLES db userId cfg)
                            (sourceTable r) \<noteq> []) (relations rc) \<and>
            (\<exists>tableObj. EXPORT_TABLES t = Some tableObj \<and>
               w = combine_conditions
                     (map (membership_condition tableObj
                             (result_after_base_phase EXPORT_TABLES db userId cfg))
                        (relations rc))))"
proof -
  let ?ev1 = "fst (pMap (baseTables cfg) (base_mapper EXPORT_TABLES db userId) c pick_base)"
  let ?ev2 = "fst (pMap (relationTables cfg)
                 (relation_mapper EXPORT_TABLES db userId
                    (result_after_base_phase EXPORT_TABLES db userId cfg))
                 c pick_relation)"
  from assms export_events_shape [of cfg EXPORT_TABLES db userId c pick_base pick_relation]
  have "FindMany t w \<in> set ?ev1 \<or> FindMany t w \<in> set ?ev2"
    by auto
  then show ?thesis
  proof
    assume "FindMany t w \<in> set ?ev1"
    from pMap_events [OF this] obtain bc where "bc \<in> set (baseTables cfg)"
      "FindMany t w \<in> set (on_call (base_mapper EXPORT_TABLES db userId bc)) \<or>
       FindMany t w \<in> set (on_resume (base_mapper EXPORT_TABLES db userId bc))"
      by blast
    with base_mapper_FindMany [of t w EXPORT_TABLES db userId bc] show ?thesis by blast
  next
    assume "FindMany t w \<in> set ?ev2"
    from pMap_events [OF this] obtain rc where "rc \<in> set (relationTables cfg)"
      "FindMany t w \<in> set (on_call (relation_mapper EXPORT_TABLES db userId
           (result_after_base_phase EXPORT_TABLES db userId cfg) rc)) \<or>
       FindMany t w \<in> set (on_resume (relation_mapper EXPORT_TABLES db userId
           (result_after_base_phase EXPORT_TABLES db userId cfg) rc))"
      by blast
    with relation_mapper_FindMany [of t w EXPORT_TABLES db userId
        "result_after_base_phase EXPORT_TABLES db userId cfg" rc]
    show ?thesis by blast
  qed
qed

lemma append_eq_before:
  assumes "xs @ ys = pre @ e # post" and "e \<notin> set xs"
  shows "\<exists>p. pre = xs @ p"
  using assms
proof (induction xs arbitrary: pre)
  case Nil
  then show ?case by simp
next
  case (Cons x xs)
  show ?case
  proof (cases pre)
    case Nil
    with Cons.prems show ?thesis by simp
  next
    case (Cons y pre')
    with Cons.prems have "x = y" "xs @ ys = pre' @ e # post" "e \<notin> set xs" by simp_all
    from Cons.IH [OF this(2,3)] obtain p where "pre' = xs @ p" by blast
    with Cons \<open>x = y\<close> show ?thesis by simp
  qed
qed

lemma export_base_phase_before:
  assumes evs: "fst (export EXPORT_TABLES db userId cfg pick_base pick_relation c) =
                  pre @ FindMany t w # post"
    and t: "t \<notin> set (map table (baseTables cfg))"
    and bc: "bc \<in> set (baseTables cfg)"
  shows "\<exists>tableObj a b done d.
           EXPORT_TABLES (table bc) = Some tableObj \<and>
           pre = a @ FindMany (table bc)
                       (Eq (tableObj (or_default (userField bc) ''userId'')) userId) #
                     b @ done # d \<and>
           answered (table bc) done"
proof -
  let ?p1 = "pMap (baseTables cfg) (base_mapper EXPORT_TABLES db userId) c pick_base"
  let ?ev2 = "fst (pMap (relationTables cfg)
                 (relation_mapper EXPORT_TABLES db userId
                    (result_after_base_phase EXPORT_TABLES db userId cfg))
                 c pick_relation)"
  have no: "FindMany t w \<notin> set (fst ?p1)"
  proof
    assume "FindMany t w \<in> set (fst ?p1)"
    from pMap_events [OF this] obtain b where "b \<in> set (baseTables cfg)"
      "FindMany t w \<in> set (on_call (base_mapper EXPORT_TABLES db userId b)) \<or>
       FindMany t w \<in> set (on_resume (base_mapper EXPORT_TABLES db userId b))"
      by blast
    with base_mapper_FindMany [of t w EXPORT_TABLES db userId b] t show False by auto
  qed
  from export_events_shape [of cfg EXPORT_TABLES db userId c pick_base pick_relation]
  show ?thesis
  proof
    assume "\<exists>e. snd ?p1 = Inl e \<and>
        fst (export EXPORT_TABLES db userId cfg pick_base pick_relation c) =
          ConsoleLog QueryingBaseTables # fst ?p1"
    with evs have "FindMany t w \<in> set (ConsoleLog QueryingBaseTables # fst ?p1)"
      by (metis in_set_conv_decomp)
    with no show ?thesis by simp
  next
    assume "\<exists>B. snd ?p1 = Inr B \<and>
        fst (export EXPORT_TABLES db userId cfg pick_base pick_relation c) =
          (ConsoleLog QueryingBaseTables # fst ?p1 @
           [ConsoleLog (BaseResults B), ConsoleLog QueryingRelationTables]) @ ?ev2"
    then obtain B where B: "snd ?p1 = Inr B"
      and shape: "fst (export EXPORT_TABLES db userId cfg pick_base pick_relation c) =
          (ConsoleLog QueryingBaseTables # fst ?p1 @
           [ConsoleLog (BaseResults B), ConsoleLog QueryingRelationTables]) @ ?ev2"
      by blast
    let ?X = "ConsoleLog QueryingBaseTables # fst ?p1 @
           [ConsoleLog (BaseResults B), ConsoleLog QueryingRelationTables]"
    from no have "FindMany t w \<notin> set ?X" by simp
    with shape evs append_eq_before [of ?X ?ev2 pre "FindMany t w" post]
    obtain p where pre: "pre = ?X @ p" by auto
    from B have base: "?p1 = (fst ?p1, Inr B)" by (cases ?p1) simp
    from pMap_resolved(3) [OF base bc] obtain v where
      "outcome (base_mapper EXPORT_TABLES db userId bc) = Inr v" by blast
    from base_mapper_registered [OF this] obtain tableObj where
      reg: "EXPORT_TABLES (table bc) = Some tableObj" by blast
    let ?q = "FindMany (table bc) (Eq (tableObj (or_default (userField bc) ''userId'')) userId)"
    let ?done = "case db (table bc)
                  (Eq (tableObj (or_default (userField bc) ''userId'')) userId) of
             Inl err \<Rightarrow> ConsoleError (table bc) err
           | Inr result \<Rightarrow> ConsoleLog (SuccessfullyExported (table bc) (length result))"
    from pMap_resolved(4) [OF base bc] reg obtain a b d where
      "fst ?p1 = a @ [?q] @ b @ [?done] @ d"
      by (auto simp: base_mapper_on_call base_mapper_on_resume)
    with pre have "pre = (ConsoleLog QueryingBaseTables # a) @ ?q # b @ ?done #
        (d @ [ConsoleLog (BaseResults B), ConsoleLog QueryingRelationTables] @ p)"
      by simp
    moreover have "answered (table bc) ?done"
      by (cases "db (table bc)
                  (Eq (tableObj (or_default (userField bc) ''userId'')) userId)") simp_all
    ultimately show ?thesis using reg by blast
  qed
qed

subsection \<open>The mapping at the start of the relation phase\<close>

lemma resolved_base_tables:
  "fst ` set (resolved_values
               (map (\<lambda>config. outcome (base_mapper EXPORT_TABLES db userId config)) bcs))
     \<subseteq> table ` set bcs"
proof (induction bcs)
  case Nil
  show ?case by simp
next
  case (Cons bc bcs)
  show ?case
  proof (cases "EXPORT_TABLES (table bc)")
    case None
    with Cons show ?thesis by (auto simp: base_mapper_outcome)
  next
    case (Some tableObj)
    with Cons show ?thesis by (auto simp: base_mapper_outcome)
  qed
qed

lemma result_after_base_phase_unknown:
  assumes "name \<notin> set (map table (baseTables cfg))"
  shows "result_after_base_phase EXPORT_TABLES db userId cfg name = None"
proof -
  from assms resolved_base_tables [of EXPORT_TABLES db userId "baseTables cfg"]
  have "name \<notin> fst ` set (resolved_values
               (map (\<lambda>config. outcome (base_mapper EXPORT_TABLES db userId config))
                  (baseTables cfg)))"
    by auto
  from set_results_other [OF this] show ?thesis
    by (simp add: result_after_base_phase_def)
qed

lemma export_returns_base_entry:
  assumes "export EXPORT_TABLES db userId cfg pick_base pick_relation c = (evs, Inr m)"
    and "distinct (all_tables cfg)"
    and "bc \<in> set (baseTables cfg)"
  shows "m (table bc) = result_after_base_phase EXPORT_TABLES db userId cfg (table bc)"
proof -
  from assms(2) have "distinct (map table (baseTables cfg))"
    by (simp add: all_tables_def)
  from result_after_base_phase_at [OF export_returns_registered(2) [OF assms(1)] this assms(3)]
    export_returns_base_rows [OF assms]
  show ?thesis by simp
qed


lemma skipped_relation_mapper:
  assumes "relation \<in> set (relations config)"
    and "rows_or_empty result (sourceTable relation) = []"
  shows "relation_mapper EXPORT_TABLES db userId result config =
           ([ConsoleLog (SkippingTable (table config))], [], Inr (table config, []))"
proof -
  from assms have "\<not> list_all (\<lambda>r. rows_or_empty result (sourceTable r) \<noteq> []) (relations config)"
    by (auto simp: list_all_iff)
  then show ?thesis by (simp add: relation_mapper_eq)
qed

lemma export_skips_relation_table:
  assumes "distinct (all_tables cfg)"
    and "rc \<in> set (relationTables cfg)"
    and "relation \<in> set (relations rc)"
    and "rows_or_empty (result_after_base_phase EXPORT_TABLES db userId cfg)
           (sourceTable relation) = []"
  shows "FindMany (table rc) w \<notin>
           set (fst (export EXPORT_TABLES db userId cfg pick_base pick_relation c))"
    and "export EXPORT_TABLES db userId cfg pick_base pick_relation c = (evs, Inr m) \<Longrightarrow>
           m (table rc) = Some []"
proof -
  let ?R = "result_after_base_phase EXPORT_TABLES db userId cfg"
  from assms(1) have dist: "distinct (map table (relationTables cfg))"
    and disj: "set (map table (baseTables cfg)) \<inter> set (map table (relationTables cfg)) = {}"
    by (simp_all add: all_tables_def)
  from assms(3,4) have skip: "\<not> list_all (\<lambda>r. rows_or_empty ?R (sourceTable r) \<noteq> []) (relations rc)"
    by (auto simp: list_all_iff)
  show "FindMany (table rc) w \<notin>
           set (fst (export EXPORT_TABLES db userId cfg pick_base pick_relation c))"
  proof
    assume "FindMany (table rc) w \<in>
           set (fst (export EXPORT_TABLES db userId cfg pick_base pick_relation c))"
    from export_FindMany [OF this] show False
    proof
      assume "\<exists>bc \<in> set (baseTables cfg). table rc = table bc \<and>
            (\<exists>tableObj. EXPORT_TABLES (table rc) = Some tableObj \<and>
               w = Eq (tableObj (or_default (userField bc) ''userId'')) userId)"
      with disj assms(2) show False by auto
    next
      assume "\<exists>rc' \<in> set (relationTables cfg). table rc = table rc' \<and>
            list_all (\<lambda>r. rows_or_empty ?R (sourceTable r) \<noteq> []) (relations rc') \<and>
            (\<exists>tableObj. EXPORT_TABLES (table rc) = Some tableObj \<and>
               w = combine_conditions (map (membership_condition tableObj ?R) (relations rc')))"
      then obtain rc' where rc': "rc' \<in> set (relationTables cfg)" "table rc = table rc'"
        "list_all (\<lambda>r. rows_or_empty ?R (sourceTable r) \<noteq> []) (relations rc')"
        by blast
      from dist rc'(1,2) assms(2) have "rc' = rc"
        by (metis distinct_map inj_onD)
      with rc'(3) skip show False by simp
    qed
  qed
  assume "export EXPORT_TABLES db userId cfg pick_base pick_relation c = (evs, Inr m)"
  from export_returns_relation_rows [OF this assms(1,2)]
    skipped_relation_mapper [OF assms(3,4), of EXPORT_TABLES db userId]
  show "m (table rc) = Some []"
    by (simp add: rows_of_def outcome_def)
qed

subsection \<open>The sample schema and database\<close>

lemma demo_distinct: "distinct (all_tables DATA_EXPORT_CONFIG)"
  by (simp add: all_tables_def DATA_EXPORT_CONFIG_def base_def relTable_def)

lemma demo_registered: "registered demo_schemas DATA_EXPORT_CONFIG"
  by (simp add: registered_def demo_schemas_def list_all_iff)

lemma demo_returns:
  "\<exists>evs m. export demo_schemas demo_db ''u1'' DATA_EXPORT_CONFIG hd last 10 = (evs, Inr m)"
  by (rule export_returns_when_registered [OF _ demo_registered]) simp

subsection \<open>The rows stored for a table\<close>

lemma base_rows:
  "EXPORT_TABLES (table config) = Some tableObj \<Longrightarrow>
   rows_of (base_mapper EXPORT_TABLES db userId config) =
     (case db (table config) (Eq (tableObj (or_default (userField config) ''userId'')) userId) of
        Inl err \<Rightarrow> []
      | Inr result \<Rightarrow> removeUserId result)"
  by (simp add: rows_of_def base_mapper_outcome)

lemma relation_rows:
  "EXPORT_TABLES (table config) = Some tableObj \<Longrightarrow>
   list_all (\<lambda>r. rows_or_empty result (sourceTable r) \<noteq> []) (relations config) \<Longrightarrow>
   rows_of (relation_mapper EXPORT_TABLES db userId result config) =
     (case db (table config)
             (combine_conditions (map (membership_condition tableObj result) (relations config))) of
        Inl err \<Rightarrow> []
      | Inr rows \<Rightarrow> rows)"
  by (simp add: rows_of_def relation_mapper_outcome)

lemma removeUserId_no_userId:
  "row \<in> set (removeUserId data) \<Longrightarrow> map_of row ''userId'' = None"
  by (auto simp: removeUserId_def map_of_filter_userId)

text \<open>
  C9: \<open>removeUserId\<close> removes exactly the field named \<open>userId\<close> from each row and leaves
  every other field and its value unchanged; on a row without a \<open>userId\<close> field it is
  the identity. So the rows that \<open>export\<close> returns for a base table are the rows the
  database gave, with \<open>userId\<close> removed and every other field as it was.
\<close>

theorem removeUserId_removes_exactly_userId:
  "length (removeUserId data) = length data \<and>
   (\<forall>i < length data. \<forall>k.
      map_of (removeUserId data ! i) k =
        (if k = ''userId'' then None else map_of (data ! i) k)) \<and>
   (\<forall>i < length data.
      ''userId'' \<notin> fst ` set (data ! i) \<longrightarrow> removeUserId data ! i = data ! i) \<and>
   (\<forall>tableObj result.
      EXPORT_TABLES (table config) = Some tableObj \<and>
      db (table config) (Eq (tableObj (or_default (userField config) ''userId'')) userId)
        = Inr result \<longrightarrow>
      outcome (queryBaseTables EXPORT_TABLES db userId config) = Inr (removeUserId result)) \<and>
   (\<forall>evs m tableObj result.
      export EXPORT_TABLES db userId cfg pick_base pick_relation c = (evs, Inr m) \<and>
      distinct (all_tables cfg) \<and> config \<in> set (baseTables cfg) \<and>
      EXPORT_TABLES (table config) = Some tableObj \<and>
      db (table config) (Eq (tableObj (or_default (userField config) ''userId'')) userId)
        = Inr result \<longrightarrow>
      (\<exists>rows. m (table config) = Some rows \<and> rows = removeUserId result \<and>
         length rows = length result \<and>
         (\<forall>i < length result. \<forall>k.
            map_of (rows ! i) k = (if k = ''userId'' then None else map_of (result ! i) k))))"
proof -
  have len: "length (removeUserId xs) = length xs" for xs
    by (simp add: removeUserId_def)
  have fields: "\<forall>i < length xs. \<forall>k. map_of (removeUserId xs ! i) k =
        (if k = ''userId'' then None else map_of (xs ! i) k)" for xs
    by (intro allI impI) (simp only: removeUserId_nth map_of_filter_userId)
  have ident: "\<forall>i < length data.
      ''userId'' \<notin> fst ` set (data ! i) \<longrightarrow> removeUserId data ! i = data ! i"
  proof (intro allI impI)
    fix i assume i: "i < length data" and no: "''userId'' \<notin> fst ` set (data ! i)"
    from no have "filter (\<lambda>(k, v). k \<noteq> ''userId'') (data ! i) = data ! i"
      by (intro filter_True) force
    with i show "removeUserId data ! i = data ! i"
      by (simp only: removeUserId_nth)
  qed
  have query: "\<forall>tableObj result.
      EXPORT_TABLES (table config) = Some tableObj \<and>
      db (table config) (Eq (tableObj (or_default (userField config) ''userId'')) userId)
        = Inr result \<longrightarrow>
      outcome (queryBaseTables EXPORT_TABLES db userId config) = Inr (removeUserId result)"
    by (simp add: queryBaseTables_outcome)
  have exported: "\<exists>rows. m (table config) = Some rows \<and> rows = removeUserId result \<and>
         length rows = length result \<and>
         (\<forall>i < length result. \<forall>k.
            map_of (rows ! i) k = (if k = ''userId'' then None else map_of (result ! i) k))"
    if "export EXPORT_TABLES db userId cfg pick_base pick_relation c = (evs, Inr m) \<and>
      distinct (all_tables cfg) \<and> config \<in> set (baseTables cfg) \<and>
      EXPORT_TABLES (table config) = Some tableObj \<and>
      db (table config) (Eq (tableObj (or_default (userField config) ''userId'')) userId)
        = Inr result" for evs m tableObj result
  proof -
    from that have ex: "export EXPORT_TABLES db userId cfg pick_base pick_relation c = (evs, Inr m)"
      and dist: "distinct (all_tables cfg)" and mem: "config \<in> set (baseTables cfg)"
      and reg: "EXPORT_TABLES (table config) = Some tableObj"
      and q: "db (table config) (Eq (tableObj (or_default (userField config) ''userId'')) userId)
        = Inr result"
      by simp_all
    from export_returns_base_rows [OF ex dist mem]
      base_rows [where EXPORT_TABLES = EXPORT_TABLES and db = db and userId = userId, OF reg] q
    have "m (table config) = Some (removeUserId result)" by simp
    with len [of result] fields [of result] show ?thesis by simp
  qed
  from len [of data] fields [of data] ident query exported show ?thesis by blast
qed

theorem removeUserId_removes_exactly_userId_witness:
  "map_of (removeUserId demo_messages ! 0) ''userId'' = None \<and>
   map_of (removeUserId demo_messages ! 0) ''content'' = Some (Str ''hello'') \<and>
   removeUserId demo_messages ! 2 = demo_messages ! 2 \<and>
   outcome (queryBaseTables demo_schemas demo_db ''u1'' (base ''messages'' None))
     = Inr (removeUserId demo_messages) \<and>
   (case export demo_schemas demo_db ''u1'' DATA_EXPORT_CONFIG hd last 10 of
      (evs, Inl e) \<Rightarrow> False
    | (evs, Inr m) \<Rightarrow>
        m ''messages'' =
          Some [[(''id'', Str ''m1''), (''content'', Str ''hello'')],
                [(''id'', Str ''m2''), (''content'', Str ''world'')],
                [(''id'', Str ''m3''), (''content'', Str ''bye'')]])"
proof -
  obtain evs m where ex:
    "export demo_schemas demo_db ''u1'' DATA_EXPORT_CONFIG hd last 10 = (evs, Inr m)"
    using demo_returns by blast
  note T = removeUserId_removes_exactly_userId
    [where data = demo_messages and EXPORT_TABLES = demo_schemas and db = demo_db
       and userId = "''u1''" and config = "base ''messages'' None"
       and cfg = DATA_EXPORT_CONFIG and pick_base = hd and pick_relation = last and c = 10]
  have len: "length demo_messages = 3"
    by (simp add: demo_messages_def)
  have no: "''userId'' \<notin> fst ` set (demo_messages ! 2)"
    by (simp add: demo_messages_def)
  have reg: "demo_schemas (table (base ''messages'' None)) = Some (demo_columns ''messages'')"
    by (simp add: demo_schemas_def base_def all_tables_def DATA_EXPORT_CONFIG_def relTable_def)
  have q: "demo_db (table (base ''messages'' None))
             (Eq (demo_columns ''messages''
                    (or_default (userField (base ''messages'' None)) ''userId'')) ''u1'')
           = Inr demo_messages"
    by (simp add: demo_db_def base_def)
  have mem: "base ''messages'' None \<in> set (baseTables DATA_EXPORT_CONFIG)"
    by (simp add: DATA_EXPORT_CONFIG_def)
  from T len have a: "map_of (removeUserId demo_messages ! 0) k =
        (if k = ''userId'' then None else map_of (demo_messages ! 0) k)" for k
    by simp
  have "map_of (demo_messages ! 0) ''content'' = Some (Str ''hello'')"
    by (simp add: demo_messages_def)
  with a [of "''content''"] have c: "map_of (removeUserId demo_messages ! 0) ''content'' = Some (Str ''hello'')"
    by simp
  from a [of "''userId''"] have u: "map_of (removeUserId demo_messages ! 0) ''userId'' = None"
    by simp
  from T len no have i: "removeUserId demo_messages ! 2 = demo_messages ! 2"
    by simp
  from T reg q have o: "outcome (queryBaseTables demo_schemas demo_db ''u1'' (base ''messages'' None))
     = Inr (removeUserId demo_messages)"
    by blast
  from T ex demo_distinct mem reg q
  have "m (table (base ''messages'' None)) = Some (removeUserId demo_messages)"
    by blast
  then have e: "m ''messages'' =
          Some [[(''id'', Str ''m1''), (''content'', Str ''hello'')],
                [(''id'', Str ''m2''), (''content'', Str ''world'')],
                [(''id'', Str ''m3''), (''content'', Str ''bye'')]]"
    by (simp add: base_def removeUserId_def demo_messages_def)
  from u c i o e ex show ?thesis by simp
qed

subsection \<open>Relation tables that are not queried\<close>

text \<open>
  C3: when one of the declared source tables of a configured relation table has no rows
  in the mapping as it stands at the start of the relation phase, no query is sent for
  the relation table, and its entry in the mapping that \<open>export\<close> returns is the empty
  list. (The entries of the base tables in the returned mapping are those the relation
  phase started from.)
\<close>

theorem empty_source_skips_relation_table:
  assumes "distinct (all_tables cfg)"
    and "rc \<in> set (relationTables cfg)"
    and "relation \<in> set (relations rc)"
    and "rows_or_empty (result_after_base_phase EXPORT_TABLES db userId cfg)
           (sourceTable relation) = []"
  shows "(\<forall>w. FindMany (table rc) w \<notin>
              set (fst (export EXPORT_TABLES db userId cfg pick_base pick_relation c))) \<and>
         (\<forall>m. snd (export EXPORT_TABLES db userId cfg pick_base pick_relation c) = Inr m \<longrightarrow>
              m (table rc) = Some [] \<and>
              (\<forall>bc \<in> set (baseTables cfg).
                 m (table bc) =
                   result_after_base_phase EXPORT_TABLES db userId cfg (table bc)))"
proof (intro conjI allI impI ballI)
  fix w
  from export_skips_relation_table(1) [OF assms]
  show "FindMany (table rc) w \<notin>
          set (fst (export EXPORT_TABLES db userId cfg pick_base pick_relation c))" .
next
  fix m
  assume "snd (export EXPORT_TABLES db userId cfg pick_base pick_relation c) = Inr m"
  then have ex: "export EXPORT_TABLES db userId cfg pick_base pick_relation c =
      (fst (export EXPORT_TABLES db userId cfg pick_base pick_relation c), Inr m)"
    by (cases "export EXPORT_TABLES db userId cfg pick_base pick_relation c") simp
  from export_skips_relation_table(2) [OF assms ex] show "m (table rc) = Some []" .
  fix bc assume "bc \<in> set (baseTables cfg)"
  from export_returns_base_entry [OF ex assms(1) this]
  show "m (table bc) = result_after_base_phase EXPORT_TABLES db userId cfg (table bc)" .
qed

theorem empty_source_skips_relation_table_witness:
  "rows_or_empty (result_after_base_phase demo_schemas demo_db ''u1'' DATA_EXPORT_CONFIG)
     ''agents'' = [] \<and>
   (\<forall>w. FindMany ''agentsToSessions'' w \<notin>
          set (fst (export demo_schemas demo_db ''u1'' DATA_EXPORT_CONFIG hd last 10))) \<and>
   (case snd (export demo_schemas demo_db ''u1'' DATA_EXPORT_CONFIG hd last 10) of
      Inl e \<Rightarrow> False
    | Inr m \<Rightarrow> m ''agentsToSessions'' = Some [] \<and> m ''agents'' = Some [])"
proof -
  let ?rc = "relTable ''agentsToSessions''
         [rel (Some ''agentId'') (Some ''id'') ''agents'',
          rel None (Some ''sessionId'') ''sessions'']"
  let ?relation = "rel (Some ''agentId'') (Some ''id'') ''agents''"
  have rc: "?rc \<in> set (relationTables DATA_EXPORT_CONFIG)"
    by (simp add: DATA_EXPORT_CONFIG_def)
  have relation: "?relation \<in> set (relations ?rc)"
    by (simp add: relTable_def)
  have agents: "result_after_base_phase demo_schemas demo_db ''u1'' DATA_EXPORT_CONFIG ''agents''
      = Some []"
    by code_simp
  then have empty: "rows_or_empty
      (result_after_base_phase demo_schemas demo_db ''u1'' DATA_EXPORT_CONFIG)
      (sourceTable ?relation) = []"
    by (simp add: rows_or_empty_def rel_def)
  have base: "base ''agents'' None \<in> set (baseTables DATA_EXPORT_CONFIG)"
    by (simp add: DATA_EXPORT_CONFIG_def)
  note T = empty_source_skips_relation_table
    [OF demo_distinct rc relation empty, of hd last 10]
  obtain evs m where ex:
    "export demo_schemas demo_db ''u1'' DATA_EXPORT_CONFIG hd last 10 = (evs, Inr m)"
    using demo_returns by blast
  from ex have sn: "snd (export demo_schemas demo_db ''u1'' DATA_EXPORT_CONFIG hd last 10) = Inr m"
    by simp
  from T have noq: "\<forall>w. FindMany (table ?rc) w \<notin>
      set (fst (export demo_schemas demo_db ''u1'' DATA_EXPORT_CONFIG hd last 10))"
    by (rule conjunct1)
  from T [THEN conjunct2, rule_format, OF sn]
  have entry: "m (table ?rc) = Some []"
    and bases: "\<forall>bc \<in> set (baseTables DATA_EXPORT_CONFIG). m (table bc) =
       result_after_base_phase demo_schemas demo_db ''u1'' DATA_EXPORT_CONFIG (table bc)"
    by blast+
  from bases base have "m (table (base ''agents'' None)) =
      result_after_base_phase demo_schemas demo_db ''u1'' DATA_EXPORT_CONFIG
        (table (base ''agents'' None))"
    by (rule bspec)
  with agents have "m ''agents'' = Some []" by (simp add: base_def)
  moreover from entry have "m ''agentsToSessions'' = Some []" by (simp add: relTable_def)
  moreover from noq have "\<forall>w. FindMany ''agentsToSessions'' w \<notin>
      set (fst (export demo_schemas demo_db ''u1'' DATA_EXPORT_CONFIG hd last 10))"
    by (simp add: relTable_def)
  moreover from empty have "rows_or_empty
      (result_after_base_phase demo_schemas demo_db ''u1'' DATA_EXPORT_CONFIG) ''agents'' = []"
    by (simp add: rel_def)
  ultimately show ?thesis using sn by simp
qed





subsection \<open>Runs of \<open>export\<close> that reject\<close>

lemma base_mapper_rejects:
  "outcome (base_mapper EXPORT_TABLES db userId bc) = Inl e \<Longrightarrow>
   EXPORT_TABLES (table bc) = None \<and> e = TableNotFound (table bc)"
  by (cases "EXPORT_TABLES (table bc)") (simp_all add: base_mapper_outcome)

lemma relation_mapper_rejects:
  "outcome (relation_mapper EXPORT_TABLES db userId result rc) = Inl e \<Longrightarrow>
   EXPORT_TABLES (table rc) = None \<and> e = TableNotFound (table rc) \<and>
   list_all (\<lambda>r. rows_or_empty result (sourceTable r) \<noteq> []) (relations rc)"
  by (cases "EXPORT_TABLES (table rc)")
     (simp_all add: relation_mapper_outcome split: if_splits)

lemma export_rejected:
  assumes "export EXPORT_TABLES db userId cfg pick_base pick_relation c = (evs, Inl e)"
  shows "(c < 1 \<and> e = ConcurrencyTypeError) \<or>
         (\<exists>bc \<in> set (baseTables cfg).
            EXPORT_TABLES (table bc) = None \<and> e = TableNotFound (table bc)) \<or>
         (\<exists>rc \<in> set (relationTables cfg).
            EXPORT_TABLES (table rc) = None \<and> e = TableNotFound (table rc) \<and>
            list_all (\<lambda>r. rows_or_empty (result_after_base_phase EXPORT_TABLES db userId cfg)
                            (sourceTable r) \<noteq> []) (relations rc))"
proof -
  let ?R = "result_after_base_phase EXPORT_TABLES db userId cfg"
  obtain ev1 r1 where p1:
    "pMap (baseTables cfg) (base_mapper EXPORT_TABLES db userId) c pick_base = (ev1, r1)"
    by (cases "pMap (baseTables cfg) (base_mapper EXPORT_TABLES db userId) c pick_base")
  show ?thesis
  proof (cases r1)
    case (Inl e1)
    with p1 have rej: "pMap (baseTables cfg) (base_mapper EXPORT_TABLES db userId) c pick_base
        = (ev1, Inl e1)" by simp
    from export_base_rejected [OF rej, of pick_relation] assms have "e1 = e" by simp
    with pMap_rejected [OF rej] show ?thesis
      using base_mapper_rejects [of EXPORT_TABLES db userId _ e] by blast
  next
    case (Inr B)
    with p1 have res: "pMap (baseTables cfg) (base_mapper EXPORT_TABLES db userId) c pick_base
        = (ev1, Inr B)" by simp
    let ?p2 = "pMap (relationTables cfg) (relation_mapper EXPORT_TABLES db userId ?R)
                 c pick_relation"
    from export_base_resolved [OF res, of pick_relation] assms
    have "snd ?p2 = Inl e" by (cases "snd ?p2") simp_all
    then have "?p2 = (fst ?p2, Inl e)" by (cases ?p2) simp
    from pMap_rejected [OF this] show ?thesis
      using relation_mapper_rejects [of EXPORT_TABLES db userId ?R _ e] by blast
  qed
qed

lemma export_rejects_unregistered_base:
  assumes "1 \<le> c" and "bc \<in> set (baseTables cfg)" and "EXPORT_TABLES (table bc) = None"
  shows "\<exists>evs t. export EXPORT_TABLES db userId cfg pick_base pick_relation c =
                   (evs, Inl (TableNotFound t)) \<and>
                 t \<in> set (map table (baseTables cfg)) \<and> EXPORT_TABLES t = None"
proof -
  from assms(3) have "outcome (base_mapper EXPORT_TABLES db userId bc) =
      Inl (TableNotFound (table bc))"
    by (simp add: base_mapper_outcome)
  from pMap_fails [where f = "base_mapper EXPORT_TABLES db userId" and pick = pick_base,
      OF assms(1,2) this] obtain ev1 e b where
    rej: "pMap (baseTables cfg) (base_mapper EXPORT_TABLES db userId) c pick_base = (ev1, Inl e)"
    and b: "b \<in> set (baseTables cfg)" "outcome (base_mapper EXPORT_TABLES db userId b) = Inl e"
    by blast
  from base_mapper_rejects [OF b(2)] b(1)
  have "e = TableNotFound (table b)" "table b \<in> set (map table (baseTables cfg))"
    "EXPORT_TABLES (table b) = None"
    by simp_all
  with export_base_rejected [OF rej, of pick_relation] show ?thesis by blast
qed

lemma export_rejects_unregistered_relation:
  assumes "1 \<le> c"
    and "\<forall>bc \<in> set (baseTables cfg). EXPORT_TABLES (table bc) \<noteq> None"
    and "rc \<in> set (relationTables cfg)" and "EXPORT_TABLES (table rc) = None"
    and "list_all (\<lambda>r. rows_or_empty (result_after_base_phase EXPORT_TABLES db userId cfg)
                          (sourceTable r) \<noteq> []) (relations rc)"
  shows "\<exists>evs t. export EXPORT_TABLES db userId cfg pick_base pick_relation c =
                   (evs, Inl (TableNotFound t)) \<and>
                 t \<in> set (map table (relationTables cfg)) \<and> EXPORT_TABLES t = None"
proof -
  let ?R = "result_after_base_phase EXPORT_TABLES db userId cfg"
  from assms(2) have "\<forall>bc \<in> set (baseTables cfg). \<exists>v.
      outcome (base_mapper EXPORT_TABLES db userId bc) = Inr v"
    by (simp add: base_mapper_resolves)
  from pMap_total [OF assms(1) this] obtain ev1 B where
    res: "pMap (baseTables cfg) (base_mapper EXPORT_TABLES db userId) c pick_base = (ev1, Inr B)"
    by blast
  from assms(4,5) have "outcome (relation_mapper EXPORT_TABLES db userId ?R rc) =
      Inl (TableNotFound (table rc))"
    by (simp add: relation_mapper_outcome)
  from pMap_fails [where f = "relation_mapper EXPORT_TABLES db userId ?R"
      and pick = pick_relation, OF assms(1,3) this] obtain ev2 e r where
    rej: "pMap (relationTables cfg) (relation_mapper EXPORT_TABLES db userId ?R) c pick_relation
        = (ev2, Inl e)"
    and r: "r \<in> set (relationTables cfg)"
      "outcome (relation_mapper EXPORT_TABLES db userId ?R r) = Inl e"
    by blast
  from relation_mapper_rejects [OF r(2)] r(1)
  have "e = TableNotFound (table r)" "table r \<in> set (map table (relationTables cfg))"
    "EXPORT_TABLES (table r) = None"
    by simp_all
  with export_base_resolved [OF res, of pick_relation] rej show ?thesis by auto
qed

subsection \<open>The events of a run that returns\<close>

lemma export_returns_events:
  assumes "export EXPORT_TABLES db userId cfg pick_base pick_relation c = (evs, Inr m)"
  shows "bc \<in> set (baseTables cfg) \<Longrightarrow>
           set (on_call (base_mapper EXPORT_TABLES db userId bc)) \<union>
           set (on_resume (base_mapper EXPORT_TABLES db userId bc)) \<subseteq> set evs"
    and "rc \<in> set (relationTables cfg) \<Longrightarrow>
           set (on_call (relation_mapper EXPORT_TABLES db userId
                  (result_after_base_phase EXPORT_TABLES db userId cfg) rc)) \<union>
           set (on_resume (relation_mapper EXPORT_TABLES db userId
                  (result_after_base_phase EXPORT_TABLES db userId cfg) rc)) \<subseteq> set evs"
proof -
  from assms obtain ev1 B ev2 R where
    base: "pMap (baseTables cfg) (base_mapper EXPORT_TABLES db userId) c pick_base = (ev1, Inr B)"
    and rel: "pMap (relationTables cfg)
       (relation_mapper EXPORT_TABLES db userId
          (result_after_base_phase EXPORT_TABLES db userId cfg))
       c pick_relation = (ev2, Inr R)"
    and evs: "evs = ConsoleLog QueryingBaseTables # ev1 @
             [ConsoleLog (BaseResults B), ConsoleLog QueryingRelationTables] @ ev2"
    by (rule export_returns_phases)
  {
    assume "bc \<in> set (baseTables cfg)"
    from pMap_resolved(4) [OF base this] obtain a b d where
      "ev1 = a @ on_call (base_mapper EXPORT_TABLES db userId bc) @ b @
               on_resume (base_mapper EXPORT_TABLES db userId bc) @ d"
      by blast
    then have "set (on_call (base_mapper EXPORT_TABLES db userId bc)) \<union>
           set (on_resume (base_mapper EXPORT_TABLES db userId bc)) \<subseteq> set ev1"
      by auto
    with evs show "set (on_call (base_mapper EXPORT_TABLES db userId bc)) \<union>
           set (on_resume (base_mapper EXPORT_TABLES db userId bc)) \<subseteq> set evs"
      by auto
  }
  {
    let ?k = "relation_mapper EXPORT_TABLES db userId
                  (result_after_base_phase EXPORT_TABLES db userId cfg) rc"
    assume "rc \<in> set (relationTables cfg)"
    from pMap_resolved(4) [OF rel this] obtain a b d where
      "ev2 = a @ on_call ?k @ b @ on_resume ?k @ d"
      by blast
    then have "set (on_call ?k) \<union> set (on_resume ?k) \<subseteq> set ev2"
      by auto
    with evs show "set (on_call ?k) \<union> set (on_resume ?k) \<subseteq> set evs"
      by auto
  }
qed

lemma relation_table_unique:
  assumes "distinct (all_tables cfg)"
    and "rc \<in> set (relationTables cfg)" and "rc' \<in> set (relationTables cfg)"
    and "table rc = table rc'"
  shows "rc = rc'"
proof -
  from assms(1) have "distinct (map table (relationTables cfg))"
    by (simp add: all_tables_def)
  with assms(2-4) show ?thesis
    by (metis distinct_map inj_onD)
qed

lemma base_table_unique:
  assumes "distinct (all_tables cfg)"
    and "bc \<in> set (baseTables cfg)" and "bc' \<in> set (baseTables cfg)"
    and "table bc = table bc'"
  shows "bc = bc'"
proof -
  from assms(1) have "distinct (map table (baseTables cfg))"
    by (simp add: all_tables_def)
  with assms(2-4) show ?thesis
    by (metis distinct_map inj_onD)
qed

lemma base_not_relation:
  assumes "distinct (all_tables cfg)"
    and "bc \<in> set (baseTables cfg)" and "rc \<in> set (relationTables cfg)"
  shows "table bc \<noteq> table rc"
  using assms by (auto simp: all_tables_def)

subsection \<open>Entries of the returned mapping\<close>





subsection \<open>Queries that raise\<close>

text \<open>
  C7: when the database query of a configured table raises, the exception is caught in
  the function that queries the table: the error is written to the console and the
  empty list is the table's result. The export goes on: with a concurrency of at least 1
  and every configured table registered it returns a mapping whatever the database
  does, the table whose query raised has the empty list as its entry, and an export
  that rejects never does so because of a database error.
\<close>

theorem query_exception_gives_empty_set:
  "(\<forall>tableObj w err. EXPORT_TABLES (table bc) = Some tableObj \<and>
       w = Eq (tableObj (or_default (userField bc) ''userId'')) userId \<and>
       db (table bc) w = Inl err \<longrightarrow>
       queryBaseTables EXPORT_TABLES db userId bc =
         ([FindMany (table bc) w], [ConsoleError (table bc) err], Inr [])) \<and>
   (\<forall>tableObj w err. EXPORT_TABLES (table rc) = Some tableObj \<and>
       list_all (\<lambda>r. rows_or_empty existingData (sourceTable r) \<noteq> []) (relations rc) \<and>
       w = combine_conditions (map (membership_condition tableObj existingData) (relations rc)) \<and>
       db (table rc) w = Inl err \<longrightarrow>
       queryTable EXPORT_TABLES db userId rc existingData =
         ([FindMany (table rc) w], [ConsoleError (table rc) err], Inr [])) \<and>
   (1 \<le> c \<and> registered EXPORT_TABLES cfg \<longrightarrow>
      (\<exists>evs m. export EXPORT_TABLES db userId cfg pick_base pick_relation c = (evs, Inr m))) \<and>
   (\<forall>evs m t w err.
       export EXPORT_TABLES db userId cfg pick_base pick_relation c = (evs, Inr m) \<and>
       distinct (all_tables cfg) \<and> FindMany t w \<in> set evs \<and> db t w = Inl err \<longrightarrow>
       m t = Some [] \<and> ConsoleError t err \<in> set evs) \<and>
   (\<forall>evs e. export EXPORT_TABLES db userId cfg pick_base pick_relation c = (evs, Inl e) \<longrightarrow>
       (c < 1 \<and> e = ConcurrencyTypeError) \<or>
       (\<exists>t \<in> set (all_tables cfg). EXPORT_TABLES t = None \<and> e = TableNotFound t))"
proof (intro conjI allI impI)
  fix tableObj w err
  assume "EXPORT_TABLES (table bc) = Some tableObj \<and>
       w = Eq (tableObj (or_default (userField bc) ''userId'')) userId \<and>
       db (table bc) w = Inl err"
  then show "queryBaseTables EXPORT_TABLES db userId bc =
         ([FindMany (table bc) w], [ConsoleError (table bc) err], Inr [])"
    by (auto simp: queryBaseTables_def Let_def)
next
  fix tableObj w err
  assume h: "EXPORT_TABLES (table rc) = Some tableObj \<and>
       list_all (\<lambda>r. rows_or_empty existingData (sourceTable r) \<noteq> []) (relations rc) \<and>
       w = combine_conditions (map (membership_condition tableObj existingData) (relations rc)) \<and>
       db (table rc) w = Inl err"
  then have "list_all (\<lambda>r. rows_or_empty existingData (sourceTable r) \<noteq> []) (relations rc)"
    by simp
  from queryTable_eq [OF this, of EXPORT_TABLES db userId] h
  show "queryTable EXPORT_TABLES db userId rc existingData =
         ([FindMany (table rc) w], [ConsoleError (table rc) err], Inr [])"
    by (auto simp: Let_def)
next
  assume "1 \<le> c \<and> registered EXPORT_TABLES cfg"
  then show "\<exists>evs m. export EXPORT_TABLES db userId cfg pick_base pick_relation c = (evs, Inr m)"
    by (intro export_returns_when_registered) simp_all
next
  fix evs m t w err
  let ?R = "result_after_base_phase EXPORT_TABLES db userId cfg"
  assume h: "export EXPORT_TABLES db userId cfg pick_base pick_relation c = (evs, Inr m) \<and>
       distinct (all_tables cfg) \<and> FindMany t w \<in> set evs \<and> db t w = Inl err"
  then have ex: "export EXPORT_TABLES db userId cfg pick_base pick_relation c = (evs, Inr m)"
    and dist: "distinct (all_tables cfg)" and q: "FindMany t w \<in> set evs"
    and err: "db t w = Inl err"
    by simp_all
  from q ex have "FindMany t w \<in>
      set (fst (export EXPORT_TABLES db userId cfg pick_base pick_relation c))" by simp
  from export_FindMany [OF this]
  have "m t = Some [] \<and> ConsoleError t err \<in> set evs"
  proof
    assume "\<exists>bc \<in> set (baseTables cfg). t = table bc \<and>
            (\<exists>tableObj. EXPORT_TABLES t = Some tableObj \<and>
               w = Eq (tableObj (or_default (userField bc) ''userId'')) userId)"
    then obtain b tableObj where b: "b \<in> set (baseTables cfg)" "t = table b"
      and reg: "EXPORT_TABLES (table b) = Some tableObj"
      and w: "w = Eq (tableObj (or_default (userField b) ''userId'')) userId"
      by blast
    from base_rows [where EXPORT_TABLES = EXPORT_TABLES and db = db and userId = userId, OF reg]
      err w b(2)
    have "rows_of (base_mapper EXPORT_TABLES db userId b) = []" by simp
    with export_returns_base_rows [OF ex dist b(1)] b(2) have entry: "m t = Some []" by simp
    from reg err w b(2) have "on_resume (base_mapper EXPORT_TABLES db userId b) =
        [ConsoleError t err]"
      by (simp add: base_mapper_on_resume)
    with export_returns_events(1) [OF ex b(1)] have "ConsoleError t err \<in> set evs" by simp
    with entry show ?thesis by simp
  next
    assume "\<exists>r \<in> set (relationTables cfg). t = table r \<and>
            list_all (\<lambda>x. rows_or_empty ?R (sourceTable x) \<noteq> []) (relations r) \<and>
            (\<exists>tableObj. EXPORT_TABLES t = Some tableObj \<and>
               w = combine_conditions (map (membership_condition tableObj ?R) (relations r)))"
    then obtain r tableObj where r: "r \<in> set (relationTables cfg)" "t = table r"
      and all: "list_all (\<lambda>x. rows_or_empty ?R (sourceTable x) \<noteq> []) (relations r)"
      and reg: "EXPORT_TABLES (table r) = Some tableObj"
      and w: "w = combine_conditions (map (membership_condition tableObj ?R) (relations r))"
      by blast
    from relation_rows [where EXPORT_TABLES = EXPORT_TABLES and db = db and userId = userId,
        OF reg all] err w r(2)
    have "rows_of (relation_mapper EXPORT_TABLES db userId ?R r) = []" by simp
    with export_returns_relation_rows [OF ex dist r(1)] r(2) have entry: "m t = Some []" by simp
    from reg all err w r(2) have "on_resume (relation_mapper EXPORT_TABLES db userId ?R r) =
        [ConsoleError t err]"
      by (simp add: relation_mapper_on_resume)
    with export_returns_events(2) [OF ex r(1)] have "ConsoleError t err \<in> set evs" by simp
    with entry show ?thesis by simp
  qed
  then show "m t = Some []" and "ConsoleError t err \<in> set evs" by simp_all
next
  fix evs e
  assume "export EXPORT_TABLES db userId cfg pick_base pick_relation c = (evs, Inl e)"
  from export_rejected [OF this]
  show "(c < 1 \<and> e = ConcurrencyTypeError) \<or>
       (\<exists>t \<in> set (all_tables cfg). EXPORT_TABLES t = None \<and> e = TableNotFound t)"
    by (auto simp: all_tables_def)
qed

lemma demo_files_FindMany:
  "FindMany ''files'' (Eq (Some (Column ''files'' ''userId'')) ''u1'') \<in>
     set (fst (export demo_schemas demo_db ''u1'' DATA_EXPORT_CONFIG hd last 10))"
  by code_simp

lemma demo_messagePlugins_FindMany:
  "FindMany ''messagePlugins''
     (InArray (Some (Column ''messagePlugins'' ''id'')) [Str ''m1'', Str ''m2'', Str ''m3'']) \<in>
     set (fst (export demo_schemas demo_db ''u1'' DATA_EXPORT_CONFIG hd last 10))"
  by code_simp

theorem query_exception_gives_empty_set_witness:
  "(1::int) \<le> 10 \<and> registered demo_schemas DATA_EXPORT_CONFIG \<and>
   (case export demo_schemas demo_db ''u1'' DATA_EXPORT_CONFIG hd last 10 of
      (evs, Inl e) \<Rightarrow> False
    | (evs, Inr m) \<Rightarrow>
        m ''files'' = Some [] \<and> ConsoleError ''files'' ''connection lost'' \<in> set evs \<and>
        m ''messagePlugins'' = Some [] \<and> ConsoleError ''messagePlugins'' ''timeout'' \<in> set evs)"
proof -
  note T = query_exception_gives_empty_set
    [where EXPORT_TABLES = demo_schemas and db = demo_db and userId = "''u1''"
       and cfg = DATA_EXPORT_CONFIG and pick_base = hd and pick_relation = last and c = 10]
  from T [THEN conjunct2, THEN conjunct2, THEN conjunct1] demo_registered obtain evs m where
    ex: "export demo_schemas demo_db ''u1'' DATA_EXPORT_CONFIG hd last 10 = (evs, Inr m)"
    by auto
  note caught = T [THEN conjunct2, THEN conjunct2, THEN conjunct2, THEN conjunct1, rule_format]
  have e1: "demo_db ''files'' (Eq (Some (Column ''files'' ''userId'')) ''u1'') =
      Inl ''connection lost''"
    by (simp add: demo_db_def)
  have e2: "demo_db ''messagePlugins''
      (InArray (Some (Column ''messagePlugins'' ''id'')) [Str ''m1'', Str ''m2'', Str ''m3'']) =
      Inl ''timeout''"
    by (simp add: demo_db_def)
  from demo_files_FindMany ex
  have q1: "FindMany ''files'' (Eq (Some (Column ''files'' ''userId'')) ''u1'') \<in> set evs"
    by simp
  from demo_messagePlugins_FindMany ex
  have q2: "FindMany ''messagePlugins''
     (InArray (Some (Column ''messagePlugins'' ''id'')) [Str ''m1'', Str ''m2'', Str ''m3''])
     \<in> set evs"
    by simp
  from caught [OF conjI [OF ex conjI [OF demo_distinct conjI [OF q1 e1]]]]
  have f: "m ''files'' = Some [] \<and> ConsoleError ''files'' ''connection lost'' \<in> set evs" .
  from caught [OF conjI [OF ex conjI [OF demo_distinct conjI [OF q2 e2]]]]
  have p: "m ''messagePlugins'' = Some [] \<and>
      ConsoleError ''messagePlugins'' ''timeout'' \<in> set evs" .
  from f p ex demo_registered show ?thesis by simp
qed

subsection \<open>The filter of a relation table\<close>








subsection \<open>The order of the two phases\<close>

text \<open>
  C6: in every run of \<open>export\<close>, whatever the order in which the queries of a phase
  complete, a query for a relation table is sent only after the query of every base
  table has been sent and answered. Its filter is built from the mapping as the base
  phase left it: that mapping holds the rows of the base tables and has no entry for a
  relation table.
\<close>

theorem relation_queries_start_after_base_phase:
  assumes "fst (export EXPORT_TABLES db userId cfg pick_base pick_relation c) =
             pre @ FindMany t w # post"
    and "distinct (all_tables cfg)"
    and "t \<in> set (map table (relationTables cfg))"
  shows "(\<forall>bc \<in> set (baseTables cfg). \<exists>tableObj a b done d.
            EXPORT_TABLES (table bc) = Some tableObj \<and>
            pre = a @ FindMany (table bc)
                        (Eq (tableObj (or_default (userField bc) ''userId'')) userId) #
                      b @ done # d \<and>
            answered (table bc) done) \<and>
         (\<exists>rc \<in> set (relationTables cfg). \<exists>tableObj.
            t = table rc \<and> EXPORT_TABLES t = Some tableObj \<and>
            w = combine_conditions
                  (map (membership_condition tableObj
                          (result_after_base_phase EXPORT_TABLES db userId cfg))
                     (relations rc))) \<and>
         (\<forall>bc \<in> set (baseTables cfg).
            result_after_base_phase EXPORT_TABLES db userId cfg (table bc) =
              Some (rows_of (base_mapper EXPORT_TABLES db userId bc))) \<and>
         (\<forall>rc \<in> set (relationTables cfg).
            result_after_base_phase EXPORT_TABLES db userId cfg (table rc) = None)"
proof -
  let ?R = "result_after_base_phase EXPORT_TABLES db userId cfg"
  from assms(2) have dist: "distinct (map table (baseTables cfg))"
    and disj: "set (map table (baseTables cfg)) \<inter> set (map table (relationTables cfg)) = {}"
    by (simp_all add: all_tables_def)
  from disj assms(3) have notbase: "t \<notin> set (map table (baseTables cfg))" by auto
  have before: "\<forall>bc \<in> set (baseTables cfg). \<exists>tableObj a b done d.
            EXPORT_TABLES (table bc) = Some tableObj \<and>
            pre = a @ FindMany (table bc)
                        (Eq (tableObj (or_default (userField bc) ''userId'')) userId) #
                      b @ done # d \<and>
            answered (table bc) done"
  proof
    fix bc assume "bc \<in> set (baseTables cfg)"
    from export_base_phase_before [OF assms(1) notbase this]
    show "\<exists>tableObj a b done d.
            EXPORT_TABLES (table bc) = Some tableObj \<and>
            pre = a @ FindMany (table bc)
                        (Eq (tableObj (or_default (userField bc) ''userId'')) userId) #
                      b @ done # d \<and>
            answered (table bc) done" .
  qed
  then have reg: "\<forall>bc \<in> set (baseTables cfg). EXPORT_TABLES (table bc) \<noteq> None"
    by fastforce
  from assms(1) have "FindMany t w \<in>
      set (fst (export EXPORT_TABLES db userId cfg pick_base pick_relation c))"
    by simp
  from export_FindMany [OF this]
  have filter: "\<exists>rc \<in> set (relationTables cfg). \<exists>tableObj.
            t = table rc \<and> EXPORT_TABLES t = Some tableObj \<and>
            w = combine_conditions (map (membership_condition tableObj ?R) (relations rc))"
  proof
    assume "\<exists>bc \<in> set (baseTables cfg). t = table bc \<and>
            (\<exists>tableObj. EXPORT_TABLES t = Some tableObj \<and>
               w = Eq (tableObj (or_default (userField bc) ''userId'')) userId)"
    with notbase show ?thesis by auto
  next
    assume "\<exists>rc \<in> set (relationTables cfg). t = table rc \<and>
            list_all (\<lambda>r. rows_or_empty ?R (sourceTable r) \<noteq> []) (relations rc) \<and>
            (\<exists>tableObj. EXPORT_TABLES t = Some tableObj \<and>
               w = combine_conditions (map (membership_condition tableObj ?R) (relations rc)))"
    then show ?thesis by blast
  qed
  have bases: "\<forall>bc \<in> set (baseTables cfg).
      ?R (table bc) = Some (rows_of (base_mapper EXPORT_TABLES db userId bc))"
  proof
    fix bc assume "bc \<in> set (baseTables cfg)"
    from result_after_base_phase_at [OF reg dist this]
    show "?R (table bc) = Some (rows_of (base_mapper EXPORT_TABLES db userId bc))" .
  qed
  have rels: "\<forall>rc \<in> set (relationTables cfg). ?R (table rc) = None"
  proof
    fix rc assume "rc \<in> set (relationTables cfg)"
    with disj have "table rc \<notin> set (map table (baseTables cfg))" by auto
    then show "?R (table rc) = None" by (rule result_after_base_phase_unknown)
  qed
  from before filter bases rels show ?thesis by blast
qed

lemma demo_trace_split:
  "fst (export demo_schemas demo_db ''u1'' DATA_EXPORT_CONFIG hd last 10) =
     take 39 (fst (export demo_schemas demo_db ''u1'' DATA_EXPORT_CONFIG hd last 10)) @
     FindMany ''filesToSessions''
       (InArray (Some (Column ''filesToSessions'' ''sessionId'')) [Str ''s1'', Str ''s2'']) #
     drop 40 (fst (export demo_schemas demo_db ''u1'' DATA_EXPORT_CONFIG hd last 10))"
  by code_simp

theorem relation_queries_start_after_base_phase_witness:
  "\<exists>a b done d.
     take 39 (fst (export demo_schemas demo_db ''u1'' DATA_EXPORT_CONFIG hd last 10)) =
       a @ FindMany ''sessions'' (Eq (Some (Column ''sessions'' ''userId'')) ''u1'') #
       b @ done # d \<and>
     answered ''sessions'' done"
proof -
  have t: "''filesToSessions'' \<in> set (map table (relationTables DATA_EXPORT_CONFIG))"
    by (simp add: DATA_EXPORT_CONFIG_def relTable_def)
  have bc: "base ''sessions'' None \<in> set (baseTables DATA_EXPORT_CONFIG)"
    by (simp add: DATA_EXPORT_CONFIG_def)
  from relation_queries_start_after_base_phase [OF demo_trace_split demo_distinct t,
      THEN conjunct1, THEN bspec, OF bc]
  obtain tableObj a b fin d where
    reg: "demo_schemas (table (base ''sessions'' None)) = Some tableObj"
    and pre: "take 39 (fst (export demo_schemas demo_db ''u1'' DATA_EXPORT_CONFIG hd last 10)) =
       a @ FindMany (table (base ''sessions'' None))
             (Eq (tableObj (or_default (userField (base ''sessions'' None)) ''userId'')) ''u1'') #
       b @ fin # d"
    and ans: "answered (table (base ''sessions'' None)) fin"
    by blast
  from reg have "tableObj = demo_columns ''sessions''"
    by (simp add: demo_schemas_def base_def split: if_splits)
  with pre have "take 39 (fst (export demo_schemas demo_db ''u1'' DATA_EXPORT_CONFIG hd last 10)) =
       a @ FindMany ''sessions'' (Eq (Some (Column ''sessions'' ''userId'')) ''u1'') #
       b @ fin # d"
    by (simp add: base_def demo_columns_def or_default_def)
  moreover from ans have "answered ''sessions'' fin" by (simp add: base_def)
  ultimately show ?thesis by blast
qed

subsection \<open>Which field is removed from the rows of a base table\<close>

text \<open>
  C1, as stated, fails: the table \<open>users\<close> is configured with the owner field \<open>id\<close>, and
  the row that \<open>export\<close> returns for it still has its \<open>id\<close>.
\<close>

theorem configured_owner_field_id_is_kept:
  "table (hd (baseTables DATA_EXPORT_CONFIG)) = ''users'' \<and>
   or_default (userField (hd (baseTables DATA_EXPORT_CONFIG))) ''userId'' = ''id'' \<and>
   \<not> isl (snd (export demo_schemas demo_db ''u1'' DATA_EXPORT_CONFIG hd last 10)) \<and>
   projr (snd (export demo_schemas demo_db ''u1'' DATA_EXPORT_CONFIG hd last 10)) ''users'' =
     Some [[(''id'', Str ''u1''), (''email'', Str ''a@b.c'')]]"
  by code_simp

text \<open>
  C1, amended: for every configured base table, every row that \<open>export\<close> returns for it
  has no field named \<open>userId\<close> and has every other field of the row the database gave,
  the configured owner field included when it is not \<open>userId\<close> (such as \<open>id\<close>); the rows
  of a relation table are stored as the database gave them.
\<close>

theorem base_rows_lose_userId_and_nothing_else:
  assumes "export EXPORT_TABLES db userId cfg pick_base pick_relation c = (evs, Inr m)"
    and "distinct (all_tables cfg)"
  shows "(\<forall>bc \<in> set (baseTables cfg). \<exists>rows.
            m (table bc) = Some rows \<and>
            (\<forall>row \<in> set rows. map_of row ''userId'' = None) \<and>
            (\<forall>tableObj result.
               EXPORT_TABLES (table bc) = Some tableObj \<and>
               db (table bc) (Eq (tableObj (or_default (userField bc) ''userId'')) userId)
                 = Inr result \<longrightarrow>
               rows = removeUserId result \<and> length rows = length result \<and>
               (\<forall>i < length result. \<forall>k. k \<noteq> ''userId'' \<longrightarrow>
                  map_of (rows ! i) k = map_of (result ! i) k))) \<and>
         (\<forall>rc \<in> set (relationTables cfg). \<forall>w result.
            FindMany (table rc) w \<in> set evs \<and> db (table rc) w = Inr result \<longrightarrow>
            m (table rc) = Some result)"
proof (intro conjI ballI)
  fix bc assume bc: "bc \<in> set (baseTables cfg)"
  from export_returns_registered(2) [OF assms(1)] bc obtain tableObj where
    reg: "EXPORT_TABLES (table bc) = Some tableObj" by blast
  let ?w = "Eq (tableObj (or_default (userField bc) ''userId'')) userId"
  let ?rows = "rows_of (base_mapper EXPORT_TABLES db userId bc)"
  note rows = base_rows [where EXPORT_TABLES = EXPORT_TABLES and db = db and userId = userId,
      OF reg]
  have entry: "m (table bc) = Some ?rows"
    by (rule export_returns_base_rows [OF assms bc])
  have clean: "\<forall>row \<in> set ?rows. map_of row ''userId'' = None"
  proof (cases "db (table bc) ?w")
    case (Inl err)
    with rows show ?thesis by simp
  next
    case (Inr result)
    with rows show ?thesis by (simp add: removeUserId_no_userId)
  qed
  have kept: "\<forall>tableObj' result.
               EXPORT_TABLES (table bc) = Some tableObj' \<and>
               db (table bc) (Eq (tableObj' (or_default (userField bc) ''userId'')) userId)
                 = Inr result \<longrightarrow>
               ?rows = removeUserId result \<and> length ?rows = length result \<and>
               (\<forall>i < length result. \<forall>k. k \<noteq> ''userId'' \<longrightarrow>
                  map_of (?rows ! i) k = map_of (result ! i) k)"
  proof (intro allI impI)
    fix tableObj' result
    assume h: "EXPORT_TABLES (table bc) = Some tableObj' \<and>
               db (table bc) (Eq (tableObj' (or_default (userField bc) ''userId'')) userId)
                 = Inr result"
    with reg have "tableObj' = tableObj" by simp
    with h rows have eq: "?rows = removeUserId result" by simp
    have "length (removeUserId result) = length result"
      by (simp add: removeUserId_def)
    moreover have "\<forall>i < length result. \<forall>k. k \<noteq> ''userId'' \<longrightarrow>
        map_of (removeUserId result ! i) k = map_of (result ! i) k"
      by (simp add: removeUserId_nth map_of_filter_userId)
    ultimately show "?rows = removeUserId result \<and> length ?rows = length result \<and>
               (\<forall>i < length result. \<forall>k. k \<noteq> ''userId'' \<longrightarrow>
                  map_of (?rows ! i) k = map_of (result ! i) k)"
      using eq by simp
  qed
  from entry clean kept
  show "\<exists>rows.
            m (table bc) = Some rows \<and>
            (\<forall>row \<in> set rows. map_of row ''userId'' = None) \<and>
            (\<forall>tableObj result.
               EXPORT_TABLES (table bc) = Some tableObj \<and>
               db (table bc) (Eq (tableObj (or_default (userField bc) ''userId'')) userId)
                 = Inr result \<longrightarrow>
               rows = removeUserId result \<and> length rows = length result \<and>
               (\<forall>i < length result. \<forall>k. k \<noteq> ''userId'' \<longrightarrow>
                  map_of (rows ! i) k = map_of (result ! i) k))"
    by blast
next
  fix rc assume rc: "rc \<in> set (relationTables cfg)"
  let ?R = "result_after_base_phase EXPORT_TABLES db userId cfg"
  show "\<forall>w result.
            FindMany (table rc) w \<in> set evs \<and> db (table rc) w = Inr result \<longrightarrow>
            m (table rc) = Some result"
  proof (intro allI impI)
    fix w result
    assume h: "FindMany (table rc) w \<in> set evs \<and> db (table rc) w = Inr result"
    with assms(1) have "FindMany (table rc) w \<in>
        set (fst (export EXPORT_TABLES db userId cfg pick_base pick_relation c))" by simp
    from export_FindMany [OF this]
    have "\<exists>tableObj. EXPORT_TABLES (table rc) = Some tableObj \<and>
        list_all (\<lambda>r. rows_or_empty ?R (sourceTable r) \<noteq> []) (relations rc) \<and>
        w = combine_conditions (map (membership_condition tableObj ?R) (relations rc))"
    proof
      assume "\<exists>bc \<in> set (baseTables cfg). table rc = table bc \<and>
            (\<exists>tableObj. EXPORT_TABLES (table rc) = Some tableObj \<and>
               w = Eq (tableObj (or_default (userField bc) ''userId'')) userId)"
      with base_not_relation [OF assms(2) _ rc] show ?thesis by metis
    next
      assume "\<exists>r \<in> set (relationTables cfg). table rc = table r \<and>
            list_all (\<lambda>x. rows_or_empty ?R (sourceTable x) \<noteq> []) (relations r) \<and>
            (\<exists>tableObj. EXPORT_TABLES (table rc) = Some tableObj \<and>
               w = combine_conditions (map (membership_condition tableObj ?R) (relations r)))"
      then obtain r tableObj where r: "r \<in> set (relationTables cfg)" "table rc = table r"
        and all: "list_all (\<lambda>x. rows_or_empty ?R (sourceTable x) \<noteq> []) (relations r)"
        and reg: "EXPORT_TABLES (table rc) = Some tableObj"
        and w: "w = combine_conditions (map (membership_condition tableObj ?R) (relations r))"
        by blast
      from relation_table_unique [OF assms(2) rc r(1) r(2)] have "rc = r" .
      with all reg w show ?thesis by blast
    qed
    then obtain tableObj where reg: "EXPORT_TABLES (table rc) = Some tableObj"
      and all: "list_all (\<lambda>r. rows_or_empty ?R (sourceTable r) \<noteq> []) (relations rc)"
      and w: "w = combine_conditions (map (membership_condition tableObj ?R) (relations rc))"
      by blast
    from relation_rows [where EXPORT_TABLES = EXPORT_TABLES and db = db and userId = userId,
        OF reg all] h w
    have "rows_of (relation_mapper EXPORT_TABLES db userId ?R rc) = result" by simp
    with export_returns_relation_rows [OF assms rc]
    show "m (table rc) = Some result" by simp
  qed
qed

lemma demo_users_query:
  "demo_schemas (table (base ''users'' (Some ''id''))) = Some (demo_columns ''users'') \<and>
   demo_db (table (base ''users'' (Some ''id'')))
     (Eq (demo_columns ''users'' (or_default (userField (base ''users'' (Some ''id''))) ''userId''))
        ''u1'') = Inr [[(''id'', Str ''u1''), (''email'', Str ''a@b.c'')]]"
  by (simp add: demo_schemas_def demo_db_def base_def all_tables_def DATA_EXPORT_CONFIG_def
      relTable_def)

lemma demo_filesToSessions_FindMany:
  "FindMany ''filesToSessions''
     (InArray (Some (Column ''filesToSessions'' ''sessionId'')) [Str ''s1'', Str ''s2'']) \<in>
     set (fst (export demo_schemas demo_db ''u1'' DATA_EXPORT_CONFIG hd last 10))"
  by code_simp

theorem base_rows_lose_userId_and_nothing_else_witness:
  "(case export demo_schemas demo_db ''u1'' DATA_EXPORT_CONFIG hd last 10 of
      (evs, Inl e) \<Rightarrow> False
    | (evs, Inr m) \<Rightarrow>
        m ''users'' = Some [[(''id'', Str ''u1''), (''email'', Str ''a@b.c'')]] \<and>
        m ''filesToSessions'' =
          Some [[(''fileId'', Str ''f1''), (''sessionId'', Str ''s1''), (''userId'', Str ''u1'')]])"
proof -
  obtain evs m where ex:
    "export demo_schemas demo_db ''u1'' DATA_EXPORT_CONFIG hd last 10 = (evs, Inr m)"
    using demo_returns by blast
  note T = base_rows_lose_userId_and_nothing_else [OF ex demo_distinct]
  have users: "base ''users'' (Some ''id'') \<in> set (baseTables DATA_EXPORT_CONFIG)"
    by (simp add: DATA_EXPORT_CONFIG_def)
  have fs: "relTable ''filesToSessions'' [rel (Some ''sessionId'') None ''sessions'']
      \<in> set (relationTables DATA_EXPORT_CONFIG)"
    by (simp add: DATA_EXPORT_CONFIG_def)
  from T [THEN conjunct1, THEN bspec, OF users] obtain rows where
    entry: "m (table (base ''users'' (Some ''id''))) = Some rows"
    and kept: "\<forall>tableObj result.
       demo_schemas (table (base ''users'' (Some ''id''))) = Some tableObj \<and>
       demo_db (table (base ''users'' (Some ''id'')))
         (Eq (tableObj (or_default (userField (base ''users'' (Some ''id''))) ''userId'')) ''u1'')
         = Inr result \<longrightarrow>
       rows = removeUserId result \<and> length rows = length result \<and>
       (\<forall>i < length result. \<forall>k. k \<noteq> ''userId'' \<longrightarrow>
          map_of (rows ! i) k = map_of (result ! i) k)"
    by blast
  from kept demo_users_query
  have "rows = removeUserId [[(''id'', Str ''u1''), (''email'', Str ''a@b.c'')]]"
    by blast
  with entry have u: "m ''users'' = Some [[(''id'', Str ''u1''), (''email'', Str ''a@b.c'')]]"
    by (simp add: base_def removeUserId_def)
  have q: "demo_db ''filesToSessions''
      (InArray (Some (Column ''filesToSessions'' ''sessionId'')) [Str ''s1'', Str ''s2'']) =
      Inr [[(''fileId'', Str ''f1''), (''sessionId'', Str ''s1''), (''userId'', Str ''u1'')]]"
    by (simp add: demo_db_def)
  from demo_filesToSessions_FindMany ex
  have "FindMany (table (relTable ''filesToSessions'' [rel (Some ''sessionId'') None ''sessions'']))
     (InArray (Some (Column ''filesToSessions'' ''sessionId'')) [Str ''s1'', Str ''s2''])
     \<in> set evs"
    by (simp add: relTable_def)
  with T [THEN conjunct2, THEN bspec, OF fs] q
  have "m (table (relTable ''filesToSessions'' [rel (Some ''sessionId'') None ''sessions''])) =
      Some [[(''fileId'', Str ''f1''), (''sessionId'', Str ''s1''), (''userId'', Str ''u1'')]]"
    by (simp add: relTable_def)
  then have f: "m ''filesToSessions'' =
      Some [[(''fileId'', Str ''f1''), (''sessionId'', Str ''s1''), (''userId'', Str ''u1'')]]"
    by (simp add: relTable_def)
  from u f ex show ?thesis by simp
qed

subsection \<open>Tables that are missing from the schema registry\<close>

text \<open>
  C2, as stated, fails: with the table \<open>embeddings\<close> missing from the schema registry,
  \<open>export\<close> returns no mapping at all; it rejects with the error \<open>Table embeddings not
  found\<close>.
\<close>

theorem unregistered_table_aborts_export:
  "''embeddings'' \<in> set (all_tables DATA_EXPORT_CONFIG) \<and>
   (demo_schemas(''embeddings'' := None)) ''embeddings'' = None \<and>
   isl (snd (export (demo_schemas(''embeddings'' := None)) demo_db ''u1''
               DATA_EXPORT_CONFIG hd last 10)) \<and>
   projl (snd (export (demo_schemas(''embeddings'' := None)) demo_db ''u1''
                 DATA_EXPORT_CONFIG hd last 10)) = TableNotFound ''embeddings''"
  by code_simp

text \<open>
  C2, amended: the error for a table that is missing from the schema registry is raised
  before the handler of the function that queries the table, so it is not caught there:
  the function rejects without sending a query or writing to the console. With a
  concurrency of at least 1, \<open>export\<close> then rejects with a \<open>Table not found\<close> error and
  returns no mapping, when a configured base table is missing, and also when every base
  table is registered and a relation table whose declared sources all have rows is
  missing.
\<close>

theorem unregistered_table_rejects_export:
  assumes "1 \<le> c"
  shows "(\<forall>bc. EXPORT_TABLES (table bc) = None \<longrightarrow>
            queryBaseTables EXPORT_TABLES db userId bc =
              ([], [], Inl (TableNotFound (table bc)))) \<and>
         (\<forall>rc existingData. EXPORT_TABLES (table rc) = None \<longrightarrow>
            queryTable EXPORT_TABLES db userId rc existingData =
              ([], [], Inl (TableNotFound (table rc)))) \<and>
         (\<forall>bc \<in> set (baseTables cfg). EXPORT_TABLES (table bc) = None \<longrightarrow>
            (\<exists>evs t. export EXPORT_TABLES db userId cfg pick_base pick_relation c =
                        (evs, Inl (TableNotFound t)) \<and>
                      t \<in> set (map table (baseTables cfg)) \<and> EXPORT_TABLES t = None)) \<and>
         (\<forall>rc \<in> set (relationTables cfg).
            (\<forall>bc \<in> set (baseTables cfg). EXPORT_TABLES (table bc) \<noteq> None) \<and>
            EXPORT_TABLES (table rc) = None \<and>
            list_all (\<lambda>r. rows_or_empty (result_after_base_phase EXPORT_TABLES db userId cfg)
                            (sourceTable r) \<noteq> []) (relations rc) \<longrightarrow>
            (\<exists>evs t. export EXPORT_TABLES db userId cfg pick_base pick_relation c =
                        (evs, Inl (TableNotFound t)) \<and>
                      t \<in> set (map table (relationTables cfg)) \<and> EXPORT_TABLES t = None))"
proof (intro conjI allI ballI impI)
  fix bc :: BaseTableConfig assume "EXPORT_TABLES (table bc) = None"
  then show "queryBaseTables EXPORT_TABLES db userId bc =
      ([], [], Inl (TableNotFound (table bc)))"
    by (simp add: queryBaseTables_def)
next
  fix rc :: RelationTableConfig and existingData :: "string \<rightharpoonup> row list"
  assume "EXPORT_TABLES (table rc) = None"
  then show "queryTable EXPORT_TABLES db userId rc existingData =
      ([], [], Inl (TableNotFound (table rc)))"
    by (simp add: queryTable_def)
next
  fix bc assume "bc \<in> set (baseTables cfg)" and "EXPORT_TABLES (table bc) = None"
  from export_rejects_unregistered_base
    [where EXPORT_TABLES = EXPORT_TABLES and db = db and userId = userId
       and pick_base = pick_base and pick_relation = pick_relation, OF assms this]
  show "\<exists>evs t. export EXPORT_TABLES db userId cfg pick_base pick_relation c =
                        (evs, Inl (TableNotFound t)) \<and>
                      t \<in> set (map table (baseTables cfg)) \<and> EXPORT_TABLES t = None" .
next
  fix rc assume rc: "rc \<in> set (relationTables cfg)"
    and h: "(\<forall>bc \<in> set (baseTables cfg). EXPORT_TABLES (table bc) \<noteq> None) \<and>
            EXPORT_TABLES (table rc) = None \<and>
            list_all (\<lambda>r. rows_or_empty (result_after_base_phase EXPORT_TABLES db userId cfg)
                            (sourceTable r) \<noteq> []) (relations rc)"
  from export_rejects_unregistered_relation
    [where EXPORT_TABLES = EXPORT_TABLES and db = db and userId = userId
       and pick_base = pick_base and pick_relation = pick_relation,
     OF assms h [THEN conjunct1] rc h [THEN conjunct2, THEN conjunct1]
        h [THEN conjunct2, THEN conjunct2]]
  show "\<exists>evs t. export EXPORT_TABLES db userId cfg pick_base pick_relation c =
                        (evs, Inl (TableNotFound t)) \<and>
                      t \<in> set (map table (relationTables cfg)) \<and> EXPORT_TABLES t = None" .
qed

theorem unregistered_table_rejects_export_witness:
  "(1::int) \<le> 10 \<and>
   (\<exists>evs t. export (demo_schemas(''embeddings'' := None)) demo_db ''u1''
               DATA_EXPORT_CONFIG hd last 10 = (evs, Inl (TableNotFound t)) \<and>
             t \<in> set (map table (baseTables DATA_EXPORT_CONFIG)) \<and>
             (demo_schemas(''embeddings'' := None)) t = None) \<and>
   (\<exists>evs t. export (demo_schemas(''filesToSessions'' := None)) demo_db ''u1''
               DATA_EXPORT_CONFIG hd last 10 = (evs, Inl (TableNotFound t)) \<and>
             t \<in> set (map table (relationTables DATA_EXPORT_CONFIG)) \<and>
             (demo_schemas(''filesToSessions'' := None)) t = None)"
proof -
  have c: "(1::int) \<le> 10" by simp
  have emb: "base ''embeddings'' None \<in> set (baseTables DATA_EXPORT_CONFIG)"
    by (simp add: DATA_EXPORT_CONFIG_def)
  have emb_none: "(demo_schemas(''embeddings'' := None)) (table (base ''embeddings'' None)) = None"
    by (simp add: base_def)
  from unregistered_table_rejects_export
    [OF c, where EXPORT_TABLES = "demo_schemas(''embeddings'' := None)" and db = demo_db
       and userId = "''u1''" and cfg = DATA_EXPORT_CONFIG and pick_base = hd
       and pick_relation = last,
     THEN conjunct2, THEN conjunct2, THEN conjunct1, THEN bspec, OF emb, rule_format,
     OF emb_none]
  have first: "\<exists>evs t. export (demo_schemas(''embeddings'' := None)) demo_db ''u1''
               DATA_EXPORT_CONFIG hd last 10 = (evs, Inl (TableNotFound t)) \<and>
             t \<in> set (map table (baseTables DATA_EXPORT_CONFIG)) \<and>
             (demo_schemas(''embeddings'' := None)) t = None" .
  let ?fs = "relTable ''filesToSessions'' [rel (Some ''sessionId'') None ''sessions'']"
  have fs: "?fs \<in> set (relationTables DATA_EXPORT_CONFIG)"
    by (simp add: DATA_EXPORT_CONFIG_def)
  have bases: "\<forall>bc \<in> set (baseTables DATA_EXPORT_CONFIG).
      (demo_schemas(''filesToSessions'' := None)) (table bc) \<noteq> None"
    by (simp add: DATA_EXPORT_CONFIG_def demo_schemas_def all_tables_def base_def relTable_def)
  have fs_none: "(demo_schemas(''filesToSessions'' := None)) (table ?fs) = None"
    by (simp add: relTable_def)
  have rows: "list_all (\<lambda>r. rows_or_empty
        (result_after_base_phase (demo_schemas(''filesToSessions'' := None)) demo_db ''u1''
           DATA_EXPORT_CONFIG) (sourceTable r) \<noteq> []) (relations ?fs)"
    by code_simp
  from unregistered_table_rejects_export
    [OF c, where EXPORT_TABLES = "demo_schemas(''filesToSessions'' := None)" and db = demo_db
       and userId = "''u1''" and cfg = DATA_EXPORT_CONFIG and pick_base = hd
       and pick_relation = last,
     THEN conjunct2, THEN conjunct2, THEN conjunct2, THEN bspec, OF fs, rule_format,
     OF conjI [OF bases conjI [OF fs_none rows]]]
  have second: "\<exists>evs t. export (demo_schemas(''filesToSessions'' := None)) demo_db ''u1''
               DATA_EXPORT_CONFIG hd last 10 = (evs, Inl (TableNotFound t)) \<and>
             t \<in> set (map table (relationTables DATA_EXPORT_CONFIG)) \<and>
             (demo_schemas(''filesToSessions'' := None)) t = None" .
  from c first second show ?thesis by blast
qed

end
